theory Spec2Isabelle
  imports Complex_Main
begin

section \<open>JavaScript values\<close>

text \<open>
  The registry validates its candidates at run time (\<^verbatim>\<open>validateSystem(s: unknown)\<close>), so a
  candidate is an arbitrary JavaScript value. Objects are plain data objects, with
  \<^verbatim>\<open>Object.prototype\<close> as their prototype: an association list of own properties, the
  first binding of a key being the one that is read. A function is opaque and identified by
  a number; what it does when it is called as a method without arguments is a parameter
  \<open>call\<close> of the functions that call one. Symbols, getters, proxies, arrays and class
  instances are outside this universe. A number is the real number it holds; the registry only
  looks at its type and at whether it is zero, and it treats NaN, which is left out, as it
  treats every other number.
\<close>

datatype jsval =
    JUndefined
  | JNull
  | JBool bool
  | JNum real
  | JStr string
  | JFun nat
  | JObj "(string \<times> jsval) list"

datatype js_type = TUndefined | TObject | TBoolean | TNumber | TString | TFunction

text \<open>What is thrown: a TypeError of the language, or the value that a called function throws.\<close>

datatype js_error = TypeError | Thrown jsval

text \<open>\<^verbatim>\<open>typeof\<close>: note that \<^verbatim>\<open>typeof null === 'object'\<close>.\<close>

fun typeof :: "jsval \<Rightarrow> js_type" where
  "typeof JUndefined = TUndefined"
| "typeof JNull = TObject"
| "typeof (JBool b) = TBoolean"
| "typeof (JNum x) = TNumber"
| "typeof (JStr s) = TString"
| "typeof (JFun f) = TFunction"
| "typeof (JObj ps) = TObject"

text \<open>\<^verbatim>\<open>!s\<close> is true for the falsy values.\<close>

fun falsy :: "jsval \<Rightarrow> bool" where
  "falsy JUndefined = True"
| "falsy JNull = True"
| "falsy (JBool b) = (\<not> b)"
| "falsy (JNum x) = (x = 0)"
| "falsy (JStr s) = (s = [])"
| "falsy (JFun f) = False"
| "falsy (JObj ps) = False"

fun nullish :: "jsval \<Rightarrow> bool" where
  "nullish JUndefined = True"
| "nullish JNull = True"
| "nullish v = False"

text \<open>\<^verbatim>\<open>a ?? b\<close>\<close>

definition nullish_coalesce :: "jsval \<Rightarrow> jsval \<Rightarrow> jsval" where
  "nullish_coalesce a b = (if nullish a then b else a)"

text \<open>
  Reading an own property of a value that is not null or undefined: a missing key reads as
  \<^verbatim>\<open>undefined\<close>.
\<close>

fun get_prop :: "jsval \<Rightarrow> string \<Rightarrow> jsval" where
  "get_prop (JObj ps) k = (case map_of ps k of None \<Rightarrow> JUndefined | Some v \<Rightarrow> v)"
| "get_prop v k = JUndefined"

text \<open>Member access \<^verbatim>\<open>s.k\<close>: it throws a TypeError on null and undefined.\<close>

definition member_access :: "jsval \<Rightarrow> string \<Rightarrow> js_error + jsval" where
  "member_access s k = (if nullish s then Inl TypeError else Inr (get_prop s k))"

text \<open>
  The value that a template literal \<^verbatim>\<open>`${v}`\<close> turns into text (ToString, and for an
  object ToPrimitive with the hint string). A primitive and a function are converted without
  a call of user code. For an object the methods \<^verbatim>\<open>toString\<close> and then
  \<^verbatim>\<open>valueOf\<close> are read; one that is callable is called, and its result is taken when it
  is not an object. The inherited \<^verbatim>\<open>toString\<close> gives \<^verbatim>\<open>[object Object]\<close>, the
  inherited \<^verbatim>\<open>valueOf\<close> gives the object itself. When neither gives a primitive, the
  conversion throws a TypeError.
\<close>

fun is_object :: "jsval \<Rightarrow> bool" where
  "is_object (JObj ps) = True"
| "is_object (JFun f) = True"
| "is_object v = False"

definition valueOf_step :: "(nat \<Rightarrow> jsval \<Rightarrow> js_error + jsval) \<Rightarrow> jsval \<Rightarrow> (string \<times> jsval) list \<Rightarrow> js_error + jsval" where
  "valueOf_step call this ps =
     (case map_of ps ''valueOf'' of
        None \<Rightarrow> Inl TypeError
      | Some (JFun g) \<Rightarrow>
          (case call g this of
             Inl e \<Rightarrow> Inl e
           | Inr r \<Rightarrow> if is_object r then Inl TypeError else Inr r)
      | Some other \<Rightarrow> Inl TypeError)"

fun template_value :: "(nat \<Rightarrow> jsval \<Rightarrow> js_error + jsval) \<Rightarrow> jsval \<Rightarrow> js_error + jsval" where
  "template_value call (JObj ps) =
     (case map_of ps ''toString'' of
        None \<Rightarrow> Inr (JStr ''[object Object]'')
      | Some (JFun f) \<Rightarrow>
          (case call f (JObj ps) of
             Inl e \<Rightarrow> Inl e
           | Inr r \<Rightarrow> if is_object r then valueOf_step call (JObj ps) ps else Inr r)
      | Some other \<Rightarrow> valueOf_step call (JObj ps) ps)"
| "template_value call v = Inr v"

section \<open>Registry (src/registry.ts)\<close>

text \<open>
  \<^verbatim>\<open>
  function validateSystem(s: unknown): s is TimeSystemDefinition {
    if (!s || typeof s !== 'object') return false;
    const sys = s as Record<string, unknown>;
    return (typeof sys.id === 'string' && typeof sys.name === 'string' &&
            typeof sys.description === 'string' && typeof sys.format === 'function');
  }
  \<close>
\<close>

definition validateSystem :: "jsval \<Rightarrow> bool" where
  "validateSystem s =
     (if falsy s \<or> typeof s \<noteq> TObject then False
      else typeof (get_prop s ''id'') = TString \<and>
           typeof (get_prop s ''name'') = TString \<and>
           typeof (get_prop s ''description'') = TString \<and>
           typeof (get_prop s ''format'') = TFunction)"

text \<open>
  The insertion-ordered \<^verbatim>\<open>Map\<close>: a list of key/value pairs in insertion order. \<^verbatim>\<open>set\<close>
  on a key that is present replaces the value in place, otherwise it appends.
\<close>

type_synonym js_map = "(jsval \<times> jsval) list"

definition map_has :: "js_map \<Rightarrow> jsval \<Rightarrow> bool" where
  "map_has m k = (map_of m k \<noteq> None)"

definition map_get :: "js_map \<Rightarrow> jsval \<Rightarrow> jsval" where
  "map_get m k = (case map_of m k of None \<Rightarrow> JUndefined | Some v \<Rightarrow> v)"

definition map_set :: "js_map \<Rightarrow> jsval \<Rightarrow> jsval \<Rightarrow> js_map" where
  "map_set m k v =
     (if map_has m k then map (\<lambda>(k', v'). if k' = k then (k', v) else (k', v')) m
      else m @ [(k, v)])"

definition map_values :: "js_map \<Rightarrow> jsval list" where
  "map_values m = map snd m"

text \<open>
  The two \<^verbatim>\<open>console.warn\<close> messages; each carries the value that its template turns
  into text.
\<close>

datatype warning = Invalid_system_definition jsval | Duplicate_system_ID jsval

record module_state =
  registry :: js_map
  console :: "warning list"

text \<open>
  One iteration of the module's initialisation loop:
  \<^verbatim>\<open>
  for (const system of systems) {
    if (!validateSystem(system)) {
      const id = (system as Record<string, unknown>).id ?? 'unknown';
      console.warn(`[Chronoshift] Invalid system definition: ${id}`);
      continue;
    }
    if (registry.has(system.id)) {
      console.warn(`[Chronoshift] Duplicate system ID: ${system.id}`);
      continue;
    }
    registry.set(system.id, system);
  }
  \<close>
  The member access in the first branch is on the unvalidated candidate, and the template
  of its warning converts whatever the candidate has as \<open>id\<close>; both can throw.
\<close>

definition register_step ::
  "(nat \<Rightarrow> jsval \<Rightarrow> js_error + jsval) \<Rightarrow> module_state \<Rightarrow> jsval \<Rightarrow> js_error + module_state" where
  "register_step call st system =
     (if \<not> validateSystem system then
        (case member_access system ''id'' of
           Inl e \<Rightarrow> Inl e
         | Inr i \<Rightarrow>
             (case template_value call (nullish_coalesce i (JStr ''unknown'')) of
                Inl e \<Rightarrow> Inl e
              | Inr shown \<Rightarrow>
                  Inr (st\<lparr>console := console st @ [Invalid_system_definition shown]\<rparr>)))
      else if map_has (registry st) (get_prop system ''id'') then
        (case template_value call (get_prop system ''id'') of
           Inl e \<Rightarrow> Inl e
         | Inr shown \<Rightarrow> Inr (st\<lparr>console := console st @ [Duplicate_system_ID shown]\<rparr>))
      else
        Inr (st\<lparr>registry := map_set (registry st) (get_prop system ''id'') system\<rparr>))"

fun register_all ::
  "(nat \<Rightarrow> jsval \<Rightarrow> js_error + jsval) \<Rightarrow> module_state \<Rightarrow> jsval list \<Rightarrow> js_error + module_state" where
  "register_all call st [] = Inr st"
| "register_all call st (system # rest) =
     (case register_step call st system of
        Inl e \<Rightarrow> Inl e
      | Inr st' \<Rightarrow> register_all call st' rest)"

text \<open>Loading the module with a given \<^verbatim>\<open>systems\<close> array.\<close>

definition init_registry ::
  "(nat \<Rightarrow> jsval \<Rightarrow> js_error + jsval) \<Rightarrow> jsval list \<Rightarrow> js_error + module_state" where
  "init_registry call systems = register_all call \<lparr>registry = [], console = []\<rparr> systems"

definition getAllSystems :: "module_state \<Rightarrow> jsval list" where
  "getAllSystems st = map_values (registry st)"

definition getSystem :: "module_state \<Rightarrow> string \<Rightarrow> jsval" where
  "getSystem st i = map_get (registry st) (JStr i)"

text \<open>
  \<^verbatim>\<open>return registry.get('standard') ?? Array.from(registry.values())[0];\<close>
  Index 0 of an empty array reads as \<^verbatim>\<open>undefined\<close>.
\<close>

definition getDefaultSystem :: "module_state \<Rightarrow> jsval" where
  "getDefaultSystem st =
     nullish_coalesce (map_get (registry st) (JStr ''standard''))
       (case map_values (registry st) of [] \<Rightarrow> JUndefined | v # _ \<Rightarrow> v)"

text \<open>
  The host's first tick (\<^verbatim>\<open>const output = currentSystem.format(now)\<close>) starts with a
  member access on the default system.
\<close>

definition tick_format_lookup :: "jsval \<Rightarrow> js_error + jsval" where
  "tick_format_lookup currentSystem = member_access currentSystem ''format''"

text \<open>
  Position \<open>i\<close> of the candidate list is accepted: the candidate validates and no earlier
  valid candidate has its id.
\<close>

definition accepted_at :: "jsval list \<Rightarrow> nat \<Rightarrow> bool" where
  "accepted_at systems i =
     (i < length systems \<and> validateSystem (systems ! i) \<and>
      list_all (\<lambda>j. validateSystem (systems ! j) \<longrightarrow>
                      get_prop (systems ! j) ''id'' \<noteq> get_prop (systems ! i) ''id'') [0..<i])"

text \<open>
  A candidate as the provider contract wants it, in the contract's words: an object that is
  not null, with strings as \<open>id\<close>, \<open>name\<close> and \<open>description\<close> and a function as
  \<open>format\<close>.
\<close>

definition well_formed :: "jsval \<Rightarrow> bool" where
  "well_formed c =
     (typeof c = TObject \<and> c \<noteq> JNull \<and>
      typeof (get_prop c ''id'') = TString \<and>
      typeof (get_prop c ''name'') = TString \<and>
      typeof (get_prop c ''description'') = TString \<and>
      typeof (get_prop c ''format'') = TFunction)"

text \<open>The \<open>id\<close> of a candidate, in the form the warning shows it, converts without an
  exception.\<close>

definition id_printable :: "(nat \<Rightarrow> jsval \<Rightarrow> js_error + jsval) \<Rightarrow> jsval \<Rightarrow> bool" where
  "id_printable call c =
     (case template_value call (nullish_coalesce (get_prop c ''id'') (JStr ''unknown'')) of
        Inl e \<Rightarrow> False
      | Inr shown \<Rightarrow> True)"

text \<open>Functions that return \<^verbatim>\<open>undefined\<close> when they are called.\<close>

definition no_calls :: "nat \<Rightarrow> jsval \<Rightarrow> js_error + jsval" where
  "no_calls f this = Inr JUndefined"

text \<open>Example candidates.\<close>

definition provider :: "string \<Rightarrow> string \<Rightarrow> nat \<Rightarrow> jsval" where
  "provider i n f =
     JObj [(''id'', JStr i), (''name'', JStr n), (''description'', JStr ''d''),
           (''format'', JFun f)]"

definition no_format :: "string \<Rightarrow> jsval" where
  "no_format i = JObj [(''id'', JStr i), (''name'', JStr ''n''), (''description'', JStr ''d'')]"

definition no_id :: jsval where
  "no_id = JObj [(''name'', JStr ''n''), (''description'', JStr ''d''), (''format'', JFun 7)]"

definition numeric_name :: "string \<Rightarrow> jsval" where
  "numeric_name i =
     JObj [(''id'', JStr i), (''name'', JNum 5), (''description'', JStr ''d''), (''format'', JFun 7)]"

definition no_description :: "string \<Rightarrow> jsval" where
  "no_description i = JObj [(''id'', JStr i), (''name'', JStr ''n''), (''format'', JFun 7)]"

definition text_format :: "string \<Rightarrow> jsval" where
  "text_format i =
     JObj [(''id'', JStr i), (''name'', JStr ''n''), (''description'', JStr ''d''),
           (''format'', JStr ''f'')]"

text \<open>A candidate without a name whose \<open>id\<close> is an object with a \<open>toString\<close> method.\<close>

definition object_id :: jsval where
  "object_id =
     JObj [(''id'', JObj [(''toString'', JFun 3)]), (''description'', JStr ''d''),
           (''format'', JFun 7)]"

text \<open>A candidate whose \<open>id\<close> is an object with neither method callable.\<close>

definition unprintable_id :: jsval where
  "unprintable_id =
     JObj [(''id'', JObj [(''toString'', JNum 0), (''valueOf'', JNum 0)]), (''name'', JStr ''n'')]"

text \<open>
  The accepted candidates as map entries, in list order: what the loop leaves in the
  registry.
\<close>

definition entries_of :: "jsval list \<Rightarrow> js_map" where
  "entries_of systems =
     map (\<lambda>i. (get_prop (systems ! i) ''id'', systems ! i))
       (filter (accepted_at systems) [0..<length systems])"

section \<open>Output nodes\<close>

text \<open>
  The DOM as the renderers use it: an element has a tag, attributes (name and string value,
  in the order they were first set) and children; a text node has its data. A node has one
  parent, so the tree under the target holds no sharing and an in-place update of a node is
  an update of the tree at the node's position.

  \<^verbatim>\<open>String(x)\<close> of a number is a parameter \<open>S\<close> of every function that calls it.
  Text outside ASCII is held as its UTF-8 bytes.
\<close>

datatype node =
    Element (tag: string) (attrs: "(string \<times> string) list") (children: "node list")
  | Text string

definition createElement :: "string \<Rightarrow> node" where
  "createElement t = Element t [] []"

fun attr_update :: "string \<Rightarrow> string \<Rightarrow> (string \<times> string) list \<Rightarrow> (string \<times> string) list" where
  "attr_update k v [] = [(k, v)]"
| "attr_update k v ((k', v') # as) =
     (if k' = k then (k, v) # as else (k', v') # attr_update k v as)"

fun setAttribute :: "node \<Rightarrow> string \<Rightarrow> string \<Rightarrow> node" where
  "setAttribute (Element t as cs) k v = Element t (attr_update k v as) cs"
| "setAttribute (Text s) k v = Text s"

fun getAttribute :: "node \<Rightarrow> string \<Rightarrow> string option" where
  "getAttribute (Element t as cs) k = map_of as k"
| "getAttribute (Text s) k = None"

text \<open>\<^verbatim>\<open>el.className = c\<close> sets the \<open>class\<close> attribute; reading it gives the empty string
  when the attribute is not there.\<close>

definition set_className :: "node \<Rightarrow> string \<Rightarrow> node" where
  "set_className n c = setAttribute n ''class'' c"

definition className :: "node \<Rightarrow> string" where
  "className n = (case getAttribute n ''class'' of None \<Rightarrow> [] | Some c \<Rightarrow> c)"

text \<open>\<^verbatim>\<open>el.textContent = s\<close> replaces the children by one text node, or by none when \<open>s\<close>
  is empty.\<close>

fun set_textContent :: "node \<Rightarrow> string \<Rightarrow> node" where
  "set_textContent (Element t as cs) s = Element t as (if s = [] then [] else [Text s])"
| "set_textContent (Text d) s = Text s"


fun appendChild :: "node \<Rightarrow> node \<Rightarrow> node" where
  "appendChild (Element t as cs) c = Element t as (cs @ [c])"
| "appendChild (Text s) c = Text s"

text \<open>\<^verbatim>\<open>el.innerHTML = ''\<close>\<close>

fun clear_innerHTML :: "node \<Rightarrow> node" where
  "clear_innerHTML (Element t as cs) = Element t as []"
| "clear_innerHTML (Text s) = Text s"

text \<open>All nodes strictly below a node, in document order.\<close>

fun descendants :: "node \<Rightarrow> node list" where
  "descendants (Text s) = []"
| "descendants (Element t as cs) = concat (map (\<lambda>c. c # descendants c) cs)"

section \<open>Display model (src/types.ts)\<close>

text \<open>An optional field is an option: \<open>None\<close> is the field left out.\<close>

record unified_display =
  u_value :: string
  u_prefix :: "string option"
  u_suffix :: "string option"
  u_label :: "string option"
  u_sublabel :: "string option"

record split_display =
  date_formatted :: string
  date_era :: "string option"
  time_formatted :: string
  time_period :: "string option"
  time_unitLabels :: "string list option"
  split_separator :: "string option"

datatype seg_value = SegString string | SegNumber real

record segment =
  seg_value :: seg_value
  seg_label :: string
  seg_sublabel :: "string option"

record segmented_display =
  segments :: "segment list"
  seg_separator :: "string option"

datatype time_display =
    Unified unified_display
  | Split split_display
  | Segmented segmented_display

fun display_type :: "time_display \<Rightarrow> string" where
  "display_type (Unified d) = ''unified''"
| "display_type (Split d) = ''split''"
| "display_type (Segmented d) = ''segmented''"

section \<open>Renderer (src/renderer.ts)\<close>

text \<open>\<^verbatim>\<open>if (d.prefix)\<close>: an optional string is truthy when it is there and not empty.\<close>

fun truthy :: "string option \<Rightarrow> bool" where
  "truthy None = False"
| "truthy (Some s) = (s \<noteq> [])"

text \<open>\<^verbatim>\<open>d.separator ?? dflt\<close>\<close>

fun or_default :: "string option \<Rightarrow> string \<Rightarrow> string" where
  "or_default None dflt = dflt"
| "or_default (Some s) dflt = s"

text \<open>
  The three statements that the source writes for every painted element:
  \<^verbatim>\<open>const el = document.createElement(t); el.className = c; el.textContent = s;\<close>
\<close>

definition text_element :: "string \<Rightarrow> string \<Rightarrow> string \<Rightarrow> node" where
  "text_element t c s = set_textContent (set_className (createElement t) c) s"

definition renderUnified :: "unified_display \<Rightarrow> node \<Rightarrow> node" where
  "renderUnified d container =
     (let main0 = set_className (createElement ''div'') ''display__main'';
          main1 = (if truthy (u_prefix d)
                   then appendChild main0 (text_element ''span'' ''display__prefix'' (the (u_prefix d)))
                   else main0);
          main2 = appendChild main1 (text_element ''span'' ''display__value'' (u_value d));
          main3 = (if truthy (u_suffix d)
                   then appendChild main2 (text_element ''span'' ''display__suffix'' (the (u_suffix d)))
                   else main2);
          c1 = appendChild container main3;
          c2 = (if truthy (u_label d)
                then appendChild c1 (text_element ''div'' ''display__label'' (the (u_label d)))
                else c1);
          c3 = (if truthy (u_sublabel d)
                then appendChild c2 (text_element ''div'' ''display__sublabel'' (the (u_sublabel d)))
                else c2)
      in c3)"

text \<open>The default separator of a split display: a bullet between two spaces.\<close>

definition bullet_separator :: string where
  "bullet_separator = [CHR '' '', CHR 0xE2, CHR 0x80, CHR 0xA2, CHR '' '']"

definition renderSplit :: "split_display \<Rightarrow> node \<Rightarrow> node" where
  "renderSplit d container =
     (let dateEl0 = text_element ''div'' ''display__date'' (date_formatted d);
          dateEl = (if truthy (date_era d)
                    then appendChild dateEl0
                           (text_element ''span'' ''display__era'' ('' '' @ the (date_era d)))
                    else dateEl0);
          timeEl0 = text_element ''div'' ''display__time'' (time_formatted d);
          timeEl = (if truthy (time_period d)
                    then appendChild timeEl0
                           (text_element ''span'' ''display__period'' ('' '' @ the (time_period d)))
                    else timeEl0);
          c1 = appendChild container dateEl;
          sep = text_element ''span'' ''display__separator''
                  (or_default (split_separator d) bullet_separator);
          c2 = appendChild c1 sep
      in appendChild c2 timeEl)"

text \<open>\<^verbatim>\<open>String(seg.value)\<close>: a string is itself.\<close>

fun String_of :: "(real \<Rightarrow> string) \<Rightarrow> seg_value \<Rightarrow> string" where
  "String_of S (SegString s) = s"
| "String_of S (SegNumber x) = S x"

text \<open>
  The body of \<^verbatim>\<open>d.segments.forEach((seg, i) => ...)\<close>, run over the segments that are
  left, \<open>i\<close> being the index of the first of them and \<open>segs_el\<close> the element built so
  far.
\<close>

fun forEach_segment ::
  "(real \<Rightarrow> string) \<Rightarrow> segmented_display \<Rightarrow> segment list \<Rightarrow> nat \<Rightarrow> node \<Rightarrow> node" where
  "forEach_segment S d [] i segs_el = segs_el"
| "forEach_segment S d (seg # rest) i segs_el =
     (let segs_el1 = (if i > 0
                      then appendChild segs_el
                             (text_element ''span'' ''display__seg-separator''
                                (or_default (seg_separator d) '':''))
                      else segs_el);
          segEl0 = set_className (createElement ''div'') ''display__segment'';
          segEl1 = appendChild segEl0
                     (text_element ''span'' ''display__seg-value'' (String_of S (seg_value seg)));
          segEl2 = appendChild segEl1 (text_element ''span'' ''display__seg-label'' (seg_label seg))
      in forEach_segment S d rest (Suc i) (appendChild segs_el1 segEl2))"

definition renderSegmented :: "(real \<Rightarrow> string) \<Rightarrow> segmented_display \<Rightarrow> node \<Rightarrow> node" where
  "renderSegmented S d container =
     (let segs_el0 = set_className (createElement ''div'') ''display__segments'';
          segs_el = forEach_segment S d (segments d) 0 segs_el0
      in appendChild container segs_el)"

definition render :: "(real \<Rightarrow> string) \<Rightarrow> time_display \<Rightarrow> node \<Rightarrow> node" where
  "render S display container =
     (let c1 = clear_innerHTML container;
          c2 = set_className c1 (''display display--'' @ display_type display)
      in case display of
           Unified d \<Rightarrow> renderUnified d c2
         | Split d \<Rightarrow> renderSplit d c2
         | Segmented d \<Rightarrow> renderSegmented S d c2)"

fun is_element :: "node \<Rightarrow> bool" where
  "is_element (Element t as cs) = True"
| "is_element (Text s) = False"

text \<open>The class names of the elements below a node, in document order.\<close>

definition classes_below :: "node \<Rightarrow> string list" where
  "classes_below n = map className (filter is_element (descendants n))"

text \<open>An optional text field with the empty string read as absent.\<close>

fun drop_empty :: "string option \<Rightarrow> string option" where
  "drop_empty None = None"
| "drop_empty (Some s) = (if s = [] then None else Some s)"

text \<open>
  The two kinds of children that the loop over the segments appends, named for the
  statements about them.
\<close>

definition separator_node :: "segmented_display \<Rightarrow> node" where
  "separator_node d =
     text_element ''span'' ''display__seg-separator'' (or_default (seg_separator d) '':'')"

definition segment_node :: "(real \<Rightarrow> string) \<Rightarrow> segment \<Rightarrow> node" where
  "segment_node S seg =
     appendChild
       (appendChild (set_className (createElement ''div'') ''display__segment'')
          (text_element ''span'' ''display__seg-value'' (String_of S (seg_value seg))))
       (text_element ''span'' ''display__seg-label'' (seg_label seg))"

definition separator_pairs :: "(real \<Rightarrow> string) \<Rightarrow> segmented_display \<Rightarrow> segment list \<Rightarrow> node list" where
  "separator_pairs S d segs = concat (map (\<lambda>seg. [separator_node d, segment_node S seg]) segs)"

text \<open>What \<open>render\<close> paints under a target: the children it leaves under an empty one.\<close>

definition painted :: "(real \<Rightarrow> string) \<Rightarrow> time_display \<Rightarrow> node list" where
  "painted S d = children (render S d (Element [] [] []))"

section \<open>Selectors and in-place updates\<close>

text \<open>
  The class attribute is a set of tokens separated by ASCII whitespace: tab, line feed, form
  feed, carriage return and space.
\<close>

definition ascii_whitespace :: "char \<Rightarrow> bool" where
  "ascii_whitespace c =
     (c = CHR 0x09 \<or> c = CHR 0x0A \<or> c = CHR 0x0C \<or> c = CHR 0x0D \<or> c = CHR 0x20)"

fun split_spaces :: "string \<Rightarrow> string \<Rightarrow> string list" where
  "split_spaces cur [] = (if cur = [] then [] else [cur])"
| "split_spaces cur (c # cs) =
     (if ascii_whitespace c
      then (if cur = [] then split_spaces [] cs else cur # split_spaces [] cs)
      else split_spaces (cur @ [c]) cs)"

definition class_tokens :: "string \<Rightarrow> string list" where
  "class_tokens s = split_spaces [] s"

text \<open>
  The selector \<^verbatim>\<open>.c\<close> matches an element that has \<open>c\<close> among its classes. The names
  are compared as they are written, as in a document with a doctype, which the page of the
  host is.
\<close>

definition has_class :: "string \<Rightarrow> node \<Rightarrow> bool" where
  "has_class c n = (is_element n \<and> c \<in> set (class_tokens (className n)))"

fun child_nodes :: "node \<Rightarrow> node list" where
  "child_nodes (Element t as cs) = cs"
| "child_nodes (Text s) = []"

text \<open>
  A reference to a node below the target is the path to it: the child indices from the
  target down. \<open>first_match p ns i\<close> is the path to the first node, in document order, of
  the forest \<open>ns\<close> that satisfies \<open>p\<close>, the first tree of the forest having index \<open>i\<close>.
\<close>

type_synonym path = "nat list"

fun first_match :: "(node \<Rightarrow> bool) \<Rightarrow> node list \<Rightarrow> nat \<Rightarrow> path option" where
  "first_match p [] i = None"
| "first_match p (Text s # ns) i = first_match p ns (Suc i)"
| "first_match p (Element t as cs # ns) i =
     (if p (Element t as cs) then Some [i]
      else (case first_match p cs 0 of
              Some q \<Rightarrow> Some (i # q)
            | None \<Rightarrow> first_match p ns (Suc i)))"

fun node_at :: "node \<Rightarrow> path \<Rightarrow> node option" where
  "node_at n [] = Some n"
| "node_at (Element t as cs) (i # p) = (if i < length cs then node_at (cs ! i) p else None)"
| "node_at (Text s) (i # p) = None"

fun update_at :: "path \<Rightarrow> (node \<Rightarrow> node) \<Rightarrow> node \<Rightarrow> node" where
  "update_at [] f n = f n"
| "update_at (i # p) f (Element t as cs) =
     (if i < length cs then Element t as (cs[i := update_at p f (cs ! i)]) else Element t as cs)"
| "update_at (i # p) f (Text s) = Text s"

text \<open>\<^verbatim>\<open>target.querySelector('.c')\<close>: \<open>None\<close> is \<^verbatim>\<open>null\<close>.\<close>

definition querySelector :: "node \<Rightarrow> string \<Rightarrow> path option" where
  "querySelector target c = first_match (has_class c) (child_nodes target) 0"

text \<open>\<^verbatim>\<open>el.querySelector('.c')\<close> for the element \<open>el\<close> at path \<open>p\<close> under the target.\<close>

definition querySelector_in :: "node \<Rightarrow> path \<Rightarrow> string \<Rightarrow> path option" where
  "querySelector_in target p c =
     (case node_at target p of
        None \<Rightarrow> None
      | Some el \<Rightarrow> map_option (\<lambda>q. p @ q) (querySelector el c))"

text \<open>\<^verbatim>\<open>el.setAttribute(k, v)\<close> for the element at path \<open>p\<close> under the target.\<close>

definition setAttribute_at :: "node \<Rightarrow> path \<Rightarrow> string \<Rightarrow> string \<Rightarrow> node" where
  "setAttribute_at target p k v = update_at p (\<lambda>n. setAttribute n k v) target"

section \<open>Visual model (types.ts, the revision with visuals)\<close>

text \<open>
  A number of the visual renderer is a double. The finite doubles are taken as the real
  numbers they are. An arithmetic operation of the code gives the exact result rounded to a
  double, by a rounding function \<open>rnd\<close>; \<^verbatim>\<open>Math.cos\<close> and \<^verbatim>\<open>Math.sin\<close> are the
  functions \<open>fcos\<close> and \<open>fsin\<close> of the implementation. The three are the arithmetic
  \<open>ar\<close>, a parameter of the renderer, as is \<^verbatim>\<open>String\<close> on numbers, \<open>S\<close>.
  Infinities, NaN, overflow and division by zero are not modelled, so the model is the
  code's for finite values and non-zero divisors. \<^verbatim>\<open>Math.min\<close> is exact. The instant is
  a value of an arbitrary type \<open>'d\<close>.
\<close>

record arith =
  rnd :: "real \<Rightarrow> real"
  fcos :: "real \<Rightarrow> real"
  fsin :: "real \<Rightarrow> real"

definition fadd :: "arith \<Rightarrow> real \<Rightarrow> real \<Rightarrow> real" where
  "fadd ar x y = rnd ar (x + y)"

definition fsub :: "arith \<Rightarrow> real \<Rightarrow> real \<Rightarrow> real" where
  "fsub ar x y = rnd ar (x - y)"

definition fmul :: "arith \<Rightarrow> real \<Rightarrow> real \<Rightarrow> real" where
  "fmul ar x y = rnd ar (x * y)"

definition fdiv :: "arith \<Rightarrow> real \<Rightarrow> real \<Rightarrow> real" where
  "fdiv ar x y = rnd ar (x / y)"

text \<open>\<^verbatim>\<open>Math.PI\<close> and a decimal literal of the source: the double next to the number.\<close>

definition Math_PI :: "arith \<Rightarrow> real" where
  "Math_PI ar = rnd ar pi"

definition literal :: "arith \<Rightarrow> real \<Rightarrow> real" where
  "literal ar x = rnd ar x"

text \<open>
  What the language fixes of an arithmetic. A double is an integer below \<open>2 ^ 53\<close> in
  absolute value scaled by a power of two. Rounding is monotone and leaves a double as it
  is; the cosine of 0 is 1 and the sine of 0 is 0.
\<close>

definition representable :: "real \<Rightarrow> bool" where
  "representable x =
     (\<exists>m::int. \<exists>k::nat. \<bar>m\<bar> < 2 ^ 53 \<and>
        (x = of_int m * 2 ^ k \<and> k \<le> 971 \<or> x = of_int m / 2 ^ k \<and> k \<le> 1074))"

definition rounding :: "arith \<Rightarrow> bool" where
  "rounding ar =
     ((\<forall>x y. x \<le> y \<longrightarrow> rnd ar x \<le> rnd ar y) \<and> (\<forall>x. representable x \<longrightarrow> rnd ar x = x))"


text \<open>The arithmetic without rounding errors, for the examples.\<close>

definition exact_arith :: arith where
  "exact_arith = \<lparr>rnd = (\<lambda>x. x), fcos = cos, fsin = sin\<rparr>"

record 'd progress_bar_visual =
  bar_max :: real
  bar_getValue :: "'d \<Rightarrow> real"

record 'd progress_ring_visual =
  ring_max :: real
  ring_getValue :: "'d \<Rightarrow> real"

record hands =
  hour :: real
  minute :: real
  second :: "real option"

record 'd clock_visual =
  divisions :: real
  getHands :: "'d \<Rightarrow> hands"

datatype 'd visual_definition =
    ProgressBar "'d progress_bar_visual"
  | ProgressRing "'d progress_ring_visual"
  | Clock "'d clock_visual"

section \<open>Visual renderer (src/visual-renderer.ts)\<close>

definition VISUAL_SIZE :: real where
  "VISUAL_SIZE = 120"

definition STROKE_WIDTH :: real where
  "STROKE_WIDTH = 4"

text \<open>\<^verbatim>\<open>document.createElementNS('http://www.w3.org/2000/svg', t)\<close>\<close>

definition createElementNS :: "string \<Rightarrow> node" where
  "createElementNS t = Element t [] []"

text \<open>
  The body of \<^verbatim>\<open>if (!svg) { ... }\<close> in \<^verbatim>\<open>renderProgressBar\<close>, up to the
  \<^verbatim>\<open>container.appendChild(svg)\<close> that ends it: the svg element with the track and the
  fill.
\<close>

definition progress_bar_scaffold :: "(real \<Rightarrow> string) \<Rightarrow> node" where
  "progress_bar_scaffold S =
     (let svg0 = createElementNS ''svg'';
          svg1 = setAttribute svg0 ''class'' ''visual__svg visual__svg--bar'';
          svg2 = setAttribute svg1 ''viewBox'' (''0 0 '' @ S VISUAL_SIZE @ '' 12'');
          svg3 = setAttribute svg2 ''aria-hidden'' ''true'';
          track0 = createElementNS ''rect'';
          track1 = setAttribute track0 ''class'' ''visual__track'';
          track2 = setAttribute track1 ''x'' ''0'';
          track3 = setAttribute track2 ''y'' ''4'';
          track4 = setAttribute track3 ''width'' (S VISUAL_SIZE);
          track5 = setAttribute track4 ''height'' ''4'';
          track6 = setAttribute track5 ''rx'' ''2'';
          svg4 = appendChild svg3 track6;
          fill0 = createElementNS ''rect'';
          fill1 = setAttribute fill0 ''class'' ''visual__fill'';
          fill2 = setAttribute fill1 ''x'' ''0'';
          fill3 = setAttribute fill2 ''y'' ''4'';
          fill4 = setAttribute fill3 ''height'' ''4'';
          fill5 = setAttribute fill4 ''rx'' ''2''
      in appendChild svg4 fill5)"

text \<open>
  \<^verbatim>\<open>let svg = container.querySelector('.visual__svg'); if (!svg) { ...;
  container.appendChild(svg); }\<close>: the target afterwards and the path of \<open>svg\<close> in it.
\<close>

definition ensure_svg :: "node \<Rightarrow> node \<Rightarrow> node \<times> path" where
  "ensure_svg container scaffold =
     (case querySelector container ''visual__svg'' of
        Some svg \<Rightarrow> (container, svg)
      | None \<Rightarrow> (appendChild container scaffold, [length (child_nodes container)]))"

text \<open>A method call on \<^verbatim>\<open>null\<close> throws a TypeError.\<close>

definition renderProgressBar ::
  "arith \<Rightarrow> (real \<Rightarrow> string) \<Rightarrow> 'd progress_bar_visual \<Rightarrow> 'd \<Rightarrow> node \<Rightarrow> js_error + node" where
  "renderProgressBar ar S visual date container =
     (let val = bar_getValue visual date;
          progress = min (fdiv ar val (bar_max visual)) 1;
          (container1, svg) = ensure_svg container (progress_bar_scaffold S)
      in case querySelector_in container1 svg ''visual__fill'' of
           None \<Rightarrow> Inl TypeError
         | Some fill \<Rightarrow>
             Inr (setAttribute_at container1 fill ''width'' (S (fmul ar progress VISUAL_SIZE))))"

definition ring_radius :: "arith \<Rightarrow> real" where
  "ring_radius ar = fdiv ar (fsub ar VISUAL_SIZE STROKE_WIDTH) 2"

definition ring_circumference :: "arith \<Rightarrow> real" where
  "ring_circumference ar = fmul ar (fmul ar 2 (Math_PI ar)) (ring_radius ar)"

definition progress_ring_scaffold :: "arith \<Rightarrow> (real \<Rightarrow> string) \<Rightarrow> node" where
  "progress_ring_scaffold ar S =
     (let svg0 = createElementNS ''svg'';
          svg1 = setAttribute svg0 ''class'' ''visual__svg visual__svg--ring'';
          svg2 = setAttribute svg1 ''viewBox'' (''0 0 '' @ S VISUAL_SIZE @ '' '' @ S VISUAL_SIZE);
          svg3 = setAttribute svg2 ''aria-hidden'' ''true'';
          center = fdiv ar VISUAL_SIZE 2;
          track0 = createElementNS ''circle'';
          track1 = setAttribute track0 ''class'' ''visual__track'';
          track2 = setAttribute track1 ''cx'' (S center);
          track3 = setAttribute track2 ''cy'' (S center);
          track4 = setAttribute track3 ''r'' (S (ring_radius ar));
          track5 = setAttribute track4 ''fill'' ''none'';
          track6 = setAttribute track5 ''stroke-width'' (S STROKE_WIDTH);
          svg4 = appendChild svg3 track6;
          arc0 = createElementNS ''circle'';
          arc1 = setAttribute arc0 ''class'' ''visual__fill'';
          arc2 = setAttribute arc1 ''cx'' (S center);
          arc3 = setAttribute arc2 ''cy'' (S center);
          arc4 = setAttribute arc3 ''r'' (S (ring_radius ar));
          arc5 = setAttribute arc4 ''fill'' ''none'';
          arc6 = setAttribute arc5 ''stroke-width'' (S STROKE_WIDTH);
          arc7 = setAttribute arc6 ''stroke-linecap'' ''round'';
          arc8 = setAttribute arc7 ''stroke-dasharray'' (S (ring_circumference ar));
          arc9 = setAttribute arc8 ''transform''
                   (''rotate(-90 '' @ S center @ '' '' @ S center @ '')'')
      in appendChild svg4 arc9)"

definition renderProgressRing ::
  "arith \<Rightarrow> (real \<Rightarrow> string) \<Rightarrow> 'd progress_ring_visual \<Rightarrow> 'd \<Rightarrow> node \<Rightarrow> js_error + node" where
  "renderProgressRing ar S visual date container =
     (let val = ring_getValue visual date;
          progress = min (fdiv ar val (ring_max visual)) 1;
          (container1, svg) = ensure_svg container (progress_ring_scaffold ar S)
      in case querySelector_in container1 svg ''visual__fill'' of
           None \<Rightarrow> Inl TypeError
         | Some arc \<Rightarrow>
             Inr (setAttribute_at container1 arc ''stroke-dashoffset''
                    (S (fmul ar (ring_circumference ar) (fsub ar 1 progress)))))"

definition clock_center :: "arith \<Rightarrow> real" where
  "clock_center ar = fdiv ar VISUAL_SIZE 2"

definition faceRadius :: "arith \<Rightarrow> real" where
  "faceRadius ar = fdiv ar (fsub ar VISUAL_SIZE STROKE_WIDTH) 2"

text \<open>
  The angle of a marker or a hand in degrees, \<^verbatim>\<open>(v / d) * 360 - 90\<close>, and the end of a line
  of the given length from the centre at an angle,
  \<^verbatim>\<open>center + len * Math.cos((angle * Math.PI) / 180)\<close> and the same with the sine.
\<close>

definition hand_angle :: "arith \<Rightarrow> real \<Rightarrow> real \<Rightarrow> real" where
  "hand_angle ar v d = fsub ar (fmul ar (fdiv ar v d) 360) 90"

definition hand_x2 :: "arith \<Rightarrow> real \<Rightarrow> real \<Rightarrow> real" where
  "hand_x2 ar len angle =
     fadd ar (clock_center ar) (fmul ar len (fcos ar (fdiv ar (fmul ar angle (Math_PI ar)) 180)))"

definition hand_y2 :: "arith \<Rightarrow> real \<Rightarrow> real \<Rightarrow> real" where
  "hand_y2 ar len angle =
     fadd ar (clock_center ar) (fmul ar len (fsin ar (fdiv ar (fmul ar angle (Math_PI ar)) 180)))"

text \<open>One hour marker: the body of the \<^verbatim>\<open>for\<close> loop over \<open>i\<close>.\<close>

definition clock_marker :: "arith \<Rightarrow> (real \<Rightarrow> string) \<Rightarrow> real \<Rightarrow> nat \<Rightarrow> node" where
  "clock_marker ar S divs i =
     (let angle = hand_angle ar (real i) divs;
          innerRadius = fsub ar (faceRadius ar) 8;
          outerRadius = fsub ar (faceRadius ar) 3;
          m0 = createElementNS ''line'';
          m1 = setAttribute m0 ''class'' ''visual__marker'';
          m2 = setAttribute m1 ''x1'' (S (hand_x2 ar innerRadius angle));
          m3 = setAttribute m2 ''y1'' (S (hand_y2 ar innerRadius angle));
          m4 = setAttribute m3 ''x2'' (S (hand_x2 ar outerRadius angle));
          m5 = setAttribute m4 ''y2'' (S (hand_y2 ar outerRadius angle));
          m6 = setAttribute m5 ''stroke-width'' ''2''
      in setAttribute m6 ''stroke-linecap'' ''round'')"

text \<open>
  \<^verbatim>\<open>for (let i = 0; i < visual.divisions; i++) { ...; svg.appendChild(marker); }\<close>
  from the index \<open>i\<close> on. The counter of the code is a double that holds an integer, and
  its increment is exact below \<open>2 ^ 53\<close>, which is more markers than a document holds; the
  counter is a natural number here.
\<close>

function clock_markers :: "arith \<Rightarrow> (real \<Rightarrow> string) \<Rightarrow> real \<Rightarrow> nat \<Rightarrow> node \<Rightarrow> node" where
  "clock_markers ar S divs i svg =
     (if real i < divs
      then clock_markers ar S divs (Suc i) (appendChild svg (clock_marker ar S divs i))
      else svg)"
  by pat_completeness auto
termination
proof (relation "measure (\<lambda>(ar, S, divs, i, svg). nat \<lceil>divs\<rceil> - i)")
  show "wf (measure (\<lambda>(ar, S, divs, i, svg). nat \<lceil>divs\<rceil> - i))"
    by simp
next
  fix ar :: arith and S :: "real \<Rightarrow> string" and divs :: real and i :: nat and svg :: node
  assume "real i < divs"
  then have "int i < \<lceil>divs\<rceil>"
    by linarith
  then show "((ar, S, divs, Suc i, appendChild svg (clock_marker ar S divs i)), (ar, S, divs, i, svg))
      \<in> measure (\<lambda>(ar, S, divs, i, svg). nat \<lceil>divs\<rceil> - i)"
    by auto
qed

declare clock_markers.simps [simp del]

text \<open>A hand as the scaffold creates it: a line from the centre, its end not yet set.\<close>

definition clock_hand :: "arith \<Rightarrow> (real \<Rightarrow> string) \<Rightarrow> string \<Rightarrow> string \<Rightarrow> node" where
  "clock_hand ar S cls width =
     (let h0 = createElementNS ''line'';
          h1 = setAttribute h0 ''class'' cls;
          h2 = setAttribute h1 ''x1'' (S (clock_center ar));
          h3 = setAttribute h2 ''y1'' (S (clock_center ar));
          h4 = setAttribute h3 ''stroke-width'' width
      in setAttribute h4 ''stroke-linecap'' ''round'')"

text \<open>
  The body of \<^verbatim>\<open>if (!svg) { ... }\<close> in \<^verbatim>\<open>renderClock\<close>: face, markers, hour hand,
  minute hand, the second hand when \<^verbatim>\<open>hands.second !== undefined\<close>, centre dot.
\<close>

definition clock_scaffold :: "arith \<Rightarrow> (real \<Rightarrow> string) \<Rightarrow> real \<Rightarrow> hands \<Rightarrow> node" where
  "clock_scaffold ar S divs hs =
     (let svg0 = createElementNS ''svg'';
          svg1 = setAttribute svg0 ''class'' ''visual__svg visual__svg--clock'';
          svg2 = setAttribute svg1 ''viewBox'' (''0 0 '' @ S VISUAL_SIZE @ '' '' @ S VISUAL_SIZE);
          svg3 = setAttribute svg2 ''aria-hidden'' ''true'';
          face0 = createElementNS ''circle'';
          face1 = setAttribute face0 ''class'' ''visual__face'';
          face2 = setAttribute face1 ''cx'' (S (clock_center ar));
          face3 = setAttribute face2 ''cy'' (S (clock_center ar));
          face4 = setAttribute face3 ''r'' (S (faceRadius ar));
          face5 = setAttribute face4 ''fill'' ''none'';
          face6 = setAttribute face5 ''stroke-width'' (S STROKE_WIDTH);
          svg4 = appendChild svg3 face6;
          svg5 = clock_markers ar S divs 0 svg4;
          svg6 = appendChild svg5 (clock_hand ar S ''visual__hand visual__hand--hour'' ''3'');
          svg7 = appendChild svg6 (clock_hand ar S ''visual__hand visual__hand--minute'' ''2'');
          svg8 = (if second hs \<noteq> None
                  then appendChild svg7 (clock_hand ar S ''visual__hand visual__hand--second'' ''1'')
                  else svg7);
          dot0 = createElementNS ''circle'';
          dot1 = setAttribute dot0 ''class'' ''visual__center'';
          dot2 = setAttribute dot1 ''cx'' (S (clock_center ar));
          dot3 = setAttribute dot2 ''cy'' (S (clock_center ar));
          dot4 = setAttribute dot3 ''r'' ''3''
      in appendChild svg8 dot4)"

definition renderClock ::
  "arith \<Rightarrow> (real \<Rightarrow> string) \<Rightarrow> 'd clock_visual \<Rightarrow> 'd \<Rightarrow> node \<Rightarrow> js_error + node" where
  "renderClock ar S visual date container =
     (let hs = getHands visual date;
          (c1, svg) = ensure_svg container (clock_scaffold ar S (divisions visual) hs);
          hourAngle = hand_angle ar (hour hs) (divisions visual);
          minuteAngle = hand_angle ar (minute hs) 100;
          hourLength = fmul ar (faceRadius ar) (literal ar 0.5);
          minuteLength = fmul ar (faceRadius ar) (literal ar 0.7)
      in case querySelector_in c1 svg ''visual__hand--hour'' of
           None \<Rightarrow> Inl TypeError
         | Some hourHand \<Rightarrow>
             (let c2 = setAttribute_at c1 hourHand ''x2'' (S (hand_x2 ar hourLength hourAngle));
                  c3 = setAttribute_at c2 hourHand ''y2'' (S (hand_y2 ar hourLength hourAngle))
              in case querySelector_in c3 svg ''visual__hand--minute'' of
                   None \<Rightarrow> Inl TypeError
                 | Some minuteHand \<Rightarrow>
                     (let c4 = setAttribute_at c3 minuteHand ''x2''
                                 (S (hand_x2 ar minuteLength minuteAngle));
                          c5 = setAttribute_at c4 minuteHand ''y2''
                                 (S (hand_y2 ar minuteLength minuteAngle))
                      in case second hs of
                           None \<Rightarrow> Inr c5
                         | Some sec \<Rightarrow>
                             (let secondAngle = hand_angle ar sec 100;
                                  secondLength = fmul ar (faceRadius ar) (literal ar 0.8)
                              in case querySelector_in c5 svg ''visual__hand--second'' of
                                   None \<Rightarrow> Inr c5
                                 | Some secondHand \<Rightarrow>
                                     Inr (setAttribute_at
                                            (setAttribute_at c5 secondHand ''x2''
                                               (S (hand_x2 ar secondLength secondAngle)))
                                            secondHand ''y2''
                                            (S (hand_y2 ar secondLength secondAngle)))))))"

fun renderVisual ::
  "arith \<Rightarrow> (real \<Rightarrow> string) \<Rightarrow> 'd visual_definition \<Rightarrow> 'd \<Rightarrow> node \<Rightarrow> js_error + node" where
  "renderVisual ar S (ProgressBar visual) date container = renderProgressBar ar S visual date container"
| "renderVisual ar S (ProgressRing visual) date container = renderProgressRing ar S visual date container"
| "renderVisual ar S (Clock visual) date container = renderClock ar S visual date container"

text \<open>
  The host calls \<^verbatim>\<open>renderVisual(currentSystem.visual, now, visualContainer)\<close> on every
  tick; the calls for a list of instants, one after the other on the same target, stop at
  the first exception.
\<close>

fun render_ticks ::
  "arith \<Rightarrow> (real \<Rightarrow> string) \<Rightarrow> 'd visual_definition \<Rightarrow> 'd list \<Rightarrow> node \<Rightarrow> js_error + node" where
  "render_ticks ar S v [] container = Inr container"
| "render_ticks ar S v (date # dates) container =
     (case renderVisual ar S v date container of
        Inl e \<Rightarrow> Inl e
      | Inr container' \<Rightarrow> render_ticks ar S v dates container')"

text \<open>
  The part of the visual with a given class: the element that
  \<^verbatim>\<open>container.querySelector('.visual__svg').querySelector('.' + c)\<close> finds, and an
  attribute of it.
\<close>

definition visual_part :: "node \<Rightarrow> string \<Rightarrow> path option" where
  "visual_part container c =
     (case querySelector container ''visual__svg'' of
        None \<Rightarrow> None
      | Some svg \<Rightarrow> querySelector_in container svg c)"

definition visual_attribute :: "node \<Rightarrow> string \<Rightarrow> string \<Rightarrow> string option" where
  "visual_attribute container c k =
     (case visual_part container c of
        None \<Rightarrow> None
      | Some el \<Rightarrow>
          (case node_at container el of
             None \<Rightarrow> None
           | Some n \<Rightarrow> getAttribute n k))"









text \<open>The states of the progress bar: the scaffold with the width of the fill set.\<close>

definition bar_svg :: "(real \<Rightarrow> string) \<Rightarrow> string \<Rightarrow> node" where
  "bar_svg S w =
     Element ''svg''
       [(''class'', ''visual__svg visual__svg--bar''), (''viewBox'', ''0 0 '' @ S VISUAL_SIZE @ '' 12''),
        (''aria-hidden'', ''true'')]
       [Element ''rect''
          [(''class'', ''visual__track''), (''x'', ''0''), (''y'', ''4''),
           (''width'', S VISUAL_SIZE), (''height'', ''4''), (''rx'', ''2'')] [],
        Element ''rect''
          [(''class'', ''visual__fill''), (''x'', ''0''), (''y'', ''4''),
           (''height'', ''4''), (''rx'', ''2''), (''width'', w)] []]"

definition bar_width :: "arith \<Rightarrow> (real \<Rightarrow> string) \<Rightarrow> 'd progress_bar_visual \<Rightarrow> 'd \<Rightarrow> string" where
  "bar_width ar S visual date =
     S (fmul ar (min (fdiv ar (bar_getValue visual date) (bar_max visual)) 1) VISUAL_SIZE)"














text \<open>A stand-in for \<^verbatim>\<open>String\<close> on the numbers of the examples.\<close>

definition demo_String :: "real \<Rightarrow> string" where
  "demo_String x =
     (if x = 120 then ''120'' else if x = 60 then ''60'' else if x = 89 then ''89''
      else if x = - 12 then ''-12'' else ''other'')"

text \<open>Example visuals: a bar whose value is the instant itself, and three clocks at three
  o'clock: without seconds, with seconds, and with seconds at every instant but the first.\<close>

definition demo_bar :: "real progress_bar_visual" where
  "demo_bar = \<lparr>bar_max = 100, bar_getValue = (\<lambda>d. d)\<rparr>"




section \<open>Registry: proofs\<close>

lemma validateSystem_not_nullish: "validateSystem s \<Longrightarrow> \<not> nullish s"
  by (cases s) (simp_all add: validateSystem_def)

lemma accepted_at_iff:
  "accepted_at systems i \<longleftrightarrow>
     i < length systems \<and> validateSystem (systems ! i) \<and>
     (\<forall>j<i. validateSystem (systems ! j) \<longrightarrow>
              get_prop (systems ! j) ''id'' \<noteq> get_prop (systems ! i) ''id'')"
  by (auto simp: accepted_at_def list_all_iff)

lemma register_all_append:
  "register_all call st (xs @ ys) =
     (case register_all call st xs of Inl e \<Rightarrow> Inl e | Inr st' \<Rightarrow> register_all call st' ys)"
  by (induction xs arbitrary: st) (auto split: sum.splits)

lemma validateSystem_well_formed: "validateSystem s = well_formed s"
  by (cases s) (auto simp: validateSystem_def well_formed_def)

lemma template_value_string: "typeof v = TString \<Longrightarrow> template_value call v = Inr v"
  by (cases v) simp_all

lemma valid_id_printable: "validateSystem c \<Longrightarrow> id_printable call c"
  by (cases "get_prop c ''id''")
     (simp_all add: validateSystem_def id_printable_def nullish_coalesce_def split: if_splits)

lemma register_step_total:
  "\<not> nullish c \<Longrightarrow> id_printable call c \<Longrightarrow> \<exists>st'. register_step call st c = Inr st'"
  by (auto simp: register_step_def member_access_def id_printable_def validateSystem_def
      nullish_coalesce_def template_value_string split: sum.splits)

lemma register_step_throws:
  "nullish c \<or> \<not> id_printable call c \<Longrightarrow> \<exists>e. register_step call st c = Inl e"
  using valid_id_printable [of c call] validateSystem_not_nullish [of c]
  by (auto simp: register_step_def member_access_def id_printable_def split: sum.splits)

lemma register_all_total:
  "\<forall>c\<in>set systems. \<not> nullish c \<and> id_printable call c \<Longrightarrow>
     \<exists>st'. register_all call st systems = Inr st'"
proof (induction systems arbitrary: st)
  case Nil
  show ?case by simp
next
  case (Cons c cs)
  then obtain st1 where s1: "register_step call st c = Inr st1"
    using register_step_total [of c call st] by auto
  from Cons obtain st2 where "register_all call st1 cs = Inr st2" by force
  with s1 show ?case by simp
qed

lemma accepted_at_snoc_old:
  "i < length xs \<Longrightarrow> accepted_at (xs @ [x]) i = accepted_at xs i"
  by (auto simp: accepted_at_iff nth_append)

lemma first_valid_accepted:
  assumes "j < length xs" "validateSystem (xs ! j)" "get_prop (xs ! j) ''id'' = k"
  shows "\<exists>i\<le>j. accepted_at xs i \<and> get_prop (xs ! i) ''id'' = k"
proof -
  define P where "P = (\<lambda>h. h < length xs \<and> validateSystem (xs ! h) \<and> get_prop (xs ! h) ''id'' = k)"
  have Pj: "P j" using assms by (simp add: P_def)
  define i where "i = (LEAST h. P h)"
  have Pi: "P i" unfolding i_def using Pj by (rule LeastI)
  have le: "i \<le> j" unfolding i_def using Pj by (rule Least_le)
  have "\<And>h. h < i \<Longrightarrow> \<not> P h" unfolding i_def by (rule not_less_Least)
  then have "accepted_at xs i"
    using Pi by (auto simp: accepted_at_iff P_def)
  with Pi le show ?thesis by (auto simp: P_def)
qed

lemma entries_of_snoc:
  "entries_of (xs @ [x]) =
     entries_of xs @ (if accepted_at (xs @ [x]) (length xs) then [(get_prop x ''id'', x)] else [])"
proof -
  have f: "filter (accepted_at (xs @ [x])) [0..<length xs] = filter (accepted_at xs) [0..<length xs]"
    by (rule filter_cong) (simp_all add: accepted_at_snoc_old)
  have m: "map (\<lambda>i. (get_prop ((xs @ [x]) ! i) ''id'', (xs @ [x]) ! i)) (filter (accepted_at xs) [0..<length xs])
         = map (\<lambda>i. (get_prop (xs ! i) ''id'', xs ! i)) (filter (accepted_at xs) [0..<length xs])"
    by (rule map_cong) (auto simp: nth_append)
  show ?thesis
    by (simp add: entries_of_def f m)
qed

lemma map_has_entries_of:
  "map_has (entries_of xs) k \<longleftrightarrow> (\<exists>j<length xs. validateSystem (xs ! j) \<and> get_prop (xs ! j) ''id'' = k)"
proof
  assume "map_has (entries_of xs) k"
  then have "k \<in> fst ` set (entries_of xs)"
    by (simp add: map_has_def map_of_eq_None_iff)
  then show "\<exists>j<length xs. validateSystem (xs ! j) \<and> get_prop (xs ! j) ''id'' = k"
    by (auto simp: entries_of_def accepted_at_iff)
next
  assume "\<exists>j<length xs. validateSystem (xs ! j) \<and> get_prop (xs ! j) ''id'' = k"
  then obtain i where "accepted_at xs i" "get_prop (xs ! i) ''id'' = k"
    using first_valid_accepted by blast
  then have "(k, xs ! i) \<in> set (entries_of xs)"
    by (auto simp: entries_of_def accepted_at_iff image_iff intro!: bexI [of _ i])
  then have "k \<in> fst ` set (entries_of xs)"
    by force
  then show "map_has (entries_of xs) k"
    by (simp add: map_has_def map_of_eq_None_iff)
qed

lemma register_step_registry:
  assumes "register_step call st x = Inr st'" "registry st = entries_of xs"
  shows "registry st' = entries_of (xs @ [x])"
proof (cases "validateSystem x")
  case False
  then have "\<not> accepted_at (xs @ [x]) (length xs)" by (simp add: accepted_at_iff)
  with assms False show ?thesis
    by (auto simp: register_step_def entries_of_snoc split: sum.splits)
next
  case True
  show ?thesis
  proof (cases "map_has (registry st) (get_prop x ''id'')")
    case True
    then have "\<not> accepted_at (xs @ [x]) (length xs)"
      using assms(2) by (auto simp: map_has_entries_of accepted_at_iff nth_append)
    with assms True \<open>validateSystem x\<close> show ?thesis
      by (auto simp: register_step_def entries_of_snoc split: sum.splits)
  next
    case False
    then have "accepted_at (xs @ [x]) (length xs)"
      using assms(2) \<open>validateSystem x\<close>
      by (auto simp: map_has_entries_of accepted_at_iff nth_append)
    with assms False \<open>validateSystem x\<close> show ?thesis
      by (auto simp: register_step_def entries_of_snoc map_set_def)
  qed
qed

lemma init_registry_entries:
  "init_registry call systems = Inr st \<Longrightarrow> registry st = entries_of systems"
proof (induction systems arbitrary: st rule: rev_induct)
  case Nil
  then show ?case by (auto simp: init_registry_def entries_of_def)
next
  case (snoc x xs)
  from snoc.prems obtain st1 where
    a: "init_registry call xs = Inr st1" and b: "register_step call st1 x = Inr st"
    by (auto simp: init_registry_def register_all_append split: sum.splits)
  from snoc.IH [OF a] b show ?case by (rule register_step_registry [rotated])
qed


lemma entries_of_valid:
  "(k, v) \<in> set (entries_of xs) \<Longrightarrow> validateSystem v \<and> k = get_prop v ''id'' \<and> v \<in> set xs"
  by (auto simp: entries_of_def accepted_at_iff)

lemma entries_of_distinct: "distinct (map fst (entries_of xs))"
proof -
  have "inj_on (\<lambda>i. get_prop (xs ! i) ''id'') {i. accepted_at xs i}"
  proof (rule inj_onI)
    fix a b
    assume a: "a \<in> {i. accepted_at xs i}" and b: "b \<in> {i. accepted_at xs i}"
       and e: "get_prop (xs ! a) ''id'' = get_prop (xs ! b) ''id''"
    show "a = b"
    proof (rule ccontr)
      assume "a \<noteq> b"
      then consider "a < b" | "b < a" by linarith
      then show False
        using a b e by cases (auto simp: accepted_at_iff)
    qed
  qed
  then have "inj_on (\<lambda>i. get_prop (xs ! i) ''id'') (set (filter (accepted_at xs) [0..<length xs]))"
    by (rule inj_on_subset) auto
  then show ?thesis
    by (simp add: entries_of_def comp_def distinct_map)
qed

lemma map_get_entries_of:
  "map_get (entries_of xs) k =
     (case find (\<lambda>s. validateSystem s \<and> get_prop s ''id'' = k) xs of
        None \<Rightarrow> JUndefined | Some s \<Rightarrow> s)"
proof (cases "find (\<lambda>s. validateSystem s \<and> get_prop s ''id'' = k) xs")
  case None
  then have "\<not> map_has (entries_of xs) k"
    by (auto simp: map_has_entries_of find_None_iff)
  with None show ?thesis
    by (simp add: map_get_def map_has_def)
next
  case (Some s)
  then obtain i where i: "i < length xs" "validateSystem (xs ! i)" "get_prop (xs ! i) ''id'' = k"
      "s = xs ! i" "\<forall>j<i. \<not> (validateSystem (xs ! j) \<and> get_prop (xs ! j) ''id'' = k)"
    by (auto simp: find_Some_iff)
  then have "accepted_at xs i"
    by (auto simp: accepted_at_iff)
  then have "(k, s) \<in> set (entries_of xs)"
    using i by (auto simp: entries_of_def image_iff intro!: bexI [of _ i])
  then have "map_of (entries_of xs) k = Some s"
    by (rule map_of_is_SomeI [OF entries_of_distinct])
  with Some show ?thesis
    by (simp add: map_get_def)
qed

lemma getAllSystems_accepted:
  "init_registry call systems = Inr st \<Longrightarrow>
     getAllSystems st = map (nth systems) (filter (accepted_at systems) [0..<length systems])"
  by (simp add: getAllSystems_def map_values_def init_registry_entries entries_of_def comp_def)

lemma getSystem_find:
  "init_registry call systems = Inr st \<Longrightarrow>
     getSystem st k =
       (case find (\<lambda>s. validateSystem s \<and> get_prop s ''id'' = JStr k) systems of
          None \<Rightarrow> JUndefined | Some s \<Rightarrow> s)"
  by (simp add: getSystem_def init_registry_entries map_get_entries_of)

lemma getAllSystems_valid:
  "init_registry call systems = Inr st \<Longrightarrow> p \<in> set (getAllSystems st) \<Longrightarrow>
     validateSystem p \<and> p \<in> set systems"
  using entries_of_valid [of _ p systems]
  by (auto simp: getAllSystems_def map_values_def init_registry_entries)

lemma getSystem_valid_or_absent:
  "init_registry call systems = Inr st \<Longrightarrow> getSystem st k = JUndefined \<or> validateSystem (getSystem st k)"
  by (auto simp: getSystem_find find_Some_iff split: option.splits)

lemma getAllSystems_distinct_ids:
  "init_registry call systems = Inr st \<Longrightarrow> distinct (map (\<lambda>p. get_prop p ''id'') (getAllSystems st))"
proof -
  assume a: "init_registry call systems = Inr st"
  have "map (\<lambda>p. get_prop p ''id'') (map snd (entries_of systems)) = map fst (entries_of systems)"
    by (simp add: entries_of_def comp_def)
  moreover from a have "getAllSystems st = map snd (entries_of systems)"
    by (simp add: getAllSystems_def map_values_def init_registry_entries)
  ultimately show ?thesis
    by (simp only: entries_of_distinct)
qed

lemma accepted_retrievable:
  assumes "init_registry call systems = Inr st" "accepted_at systems i"
  shows "systems ! i \<in> set (getAllSystems st)"
    and "get_prop (systems ! i) ''id'' = JStr k \<Longrightarrow> getSystem st k = systems ! i"
proof -
  have m: "(get_prop (systems ! i) ''id'', systems ! i) \<in> set (entries_of systems)"
    using assms(2) by (auto simp: entries_of_def accepted_at_iff image_iff intro!: bexI [of _ i])
  then show "systems ! i \<in> set (getAllSystems st)"
    using assms(1) by (force simp: getAllSystems_def map_values_def init_registry_entries)
  assume "get_prop (systems ! i) ''id'' = JStr k"
  with m have "map_of (entries_of systems) (JStr k) = Some (systems ! i)"
    by (simp add: map_of_is_SomeI [OF entries_of_distinct])
  then show "getSystem st k = systems ! i"
    using assms(1) by (simp add: getSystem_def map_get_def init_registry_entries)
qed


lemma fresh_id_accepted:
  assumes "i < length systems" "validateSystem (systems ! i)"
      and "init_registry call (take i systems) = Inr st_i"
      and "\<not> map_has (registry st_i) (get_prop (systems ! i) ''id'')"
  shows "accepted_at systems i"
proof -
  have r: "registry st_i = entries_of (take i systems)"
    using assms(3) by (rule init_registry_entries)
  have "\<not> map_has (entries_of (take i systems)) (get_prop (systems ! i) ''id'')"
    using assms(4) r by simp
  then have "\<forall>j<i. validateSystem (systems ! j) \<longrightarrow>
        get_prop (systems ! j) ''id'' \<noteq> get_prop (systems ! i) ''id''"
    using assms(1) by (auto simp: map_has_entries_of)
  with assms(1,2) show ?thesis
    by (simp add: accepted_at_iff)
qed

lemma registry_lookup:
  assumes "init_registry call systems = Inr st" "p \<in> set (getAllSystems st)"
  shows "map_get (registry st) (get_prop p ''id'') = p"
proof -
  from assms obtain k where kp: "(k, p) \<in> set (entries_of systems)"
    by (auto simp: getAllSystems_def map_values_def init_registry_entries)
  then have "k = get_prop p ''id''"
    using entries_of_valid by blast
  with kp have "map_of (entries_of systems) (get_prop p ''id'') = Some p"
    by (simp add: map_of_is_SomeI [OF entries_of_distinct])
  then show ?thesis
    using assms(1) by (simp add: map_get_def init_registry_entries)
qed

lemma registry_miss:
  assumes "init_registry call systems = Inr st"
      and "\<forall>p\<in>set (getAllSystems st). get_prop p ''id'' \<noteq> k"
  shows "map_get (registry st) k = JUndefined"
proof -
  have "k \<notin> fst ` set (entries_of systems)"
  proof
    assume "k \<in> fst ` set (entries_of systems)"
    then obtain v where kv: "(k, v) \<in> set (entries_of systems)" by auto
    then have "v \<in> set (getAllSystems st)"
      using assms(1) by (force simp: getAllSystems_def map_values_def init_registry_entries)
    moreover from kv have "k = get_prop v ''id''"
      using entries_of_valid by blast
    ultimately show False using assms(2) by blast
  qed
  then have "map_of (entries_of systems) k = None"
    by (simp add: map_of_eq_None_iff)
  then show ?thesis
    using assms(1) by (simp add: map_get_def init_registry_entries)
qed

lemma registry_hit_or_miss:
  assumes "init_registry call systems = Inr st"
  shows "getSystem st k = JUndefined \<and> (\<forall>p\<in>set (getAllSystems st). get_prop p ''id'' \<noteq> JStr k) \<or>
         getSystem st k \<in> set (getAllSystems st) \<and> get_prop (getSystem st k) ''id'' = JStr k"
proof (cases "\<exists>p\<in>set (getAllSystems st). get_prop p ''id'' = JStr k")
  case True
  then obtain p where p: "p \<in> set (getAllSystems st)" "get_prop p ''id'' = JStr k" by blast
  from registry_lookup [OF assms p(1)] p(2) have "getSystem st k = p"
    by (simp add: getSystem_def)
  with p show ?thesis by simp
next
  case False
  then have m: "\<forall>p\<in>set (getAllSystems st). get_prop p ''id'' \<noteq> JStr k" by blast
  from registry_miss [OF assms m] have "getSystem st k = JUndefined"
    by (simp add: getSystem_def)
  with m show ?thesis by blast
qed

lemma init_registry_completes_iff:
  "(\<exists>st. init_registry call systems = Inr st) \<longleftrightarrow>
     (\<forall>c\<in>set systems. \<not> nullish c \<and> id_printable call c)"
proof
  assume "\<forall>c\<in>set systems. \<not> nullish c \<and> id_printable call c"
  then show "\<exists>st. init_registry call systems = Inr st"
    unfolding init_registry_def by (rule register_all_total)
next
  assume "\<exists>st. init_registry call systems = Inr st"
  then have "\<exists>st. register_all call \<lparr>registry = [], console = []\<rparr> systems = Inr st"
    by (simp add: init_registry_def)
  then show "\<forall>c\<in>set systems. \<not> nullish c \<and> id_printable call c"
  proof (induction systems arbitrary: rule: rev_induct)
    case Nil
    show ?case by simp
  next
    case (snoc x xs)
    from snoc.prems obtain st1 st2 where
      a: "register_all call \<lparr>registry = [], console = []\<rparr> xs = Inr st1"
      and b: "register_step call st1 x = Inr st2"
      by (auto simp: register_all_append split: sum.splits)
    from a snoc.IH have "\<forall>c\<in>set xs. \<not> nullish c \<and> id_printable call c" by blast
    moreover from b register_step_throws [of x call st1]
    have "\<not> nullish x \<and> id_printable call x" by auto
    ultimately show ?case by simp
  qed
qed

text \<open>
  Claim C1, as amended. Take a candidate list without a null or undefined entry in which the
  \<open>id\<close> of every candidate converts to text without an exception (every primitive does;
  an object does when its \<open>toString\<close> or \<open>valueOf\<close> gives a primitive). Then loading the
  module throws nothing, and in the state it leaves:
  a candidate in which \<open>id\<close>, \<open>name\<close> or \<open>description\<close> is missing or not a string, or
  \<open>format\<close> is missing or not a function, is not in \<open>getAllSystems\<close> and is returned by
  \<open>getSystem\<close> for no id;
  \<open>getSystem\<close> of any id is the first well-formed candidate of the list with that id, and
  \<open>undefined\<close> when there is none, so that for the id of a rejected candidate it is either
  absent, with no accepted provider of that id, or the accepted provider with that id;
  every element of \<open>getAllSystems\<close> is a well-formed candidate of the list;
  and a well-formed candidate whose id is not yet in the registry when its turn comes is in
  \<open>getAllSystems\<close> and is what \<open>getSystem\<close> returns for its id.
\<close>

theorem invalid_candidates_excluded:
  assumes "\<forall>c\<in>set systems. \<not> nullish c \<and> id_printable call c"
  shows "\<exists>st. init_registry call systems = Inr st \<and>
     (\<forall>c\<in>set systems.
         typeof (get_prop c ''id'') \<noteq> TString \<or>
         typeof (get_prop c ''name'') \<noteq> TString \<or>
         typeof (get_prop c ''description'') \<noteq> TString \<or>
         typeof (get_prop c ''format'') \<noteq> TFunction
         \<longrightarrow> c \<notin> set (getAllSystems st) \<and> (\<forall>k. getSystem st k \<noteq> c)) \<and>
     (\<forall>k. getSystem st k =
         (case find (\<lambda>s. well_formed s \<and> get_prop s ''id'' = JStr k) systems of
            None \<Rightarrow> JUndefined | Some s \<Rightarrow> s)) \<and>
     (\<forall>k. getSystem st k = JUndefined \<and>
            (\<forall>p\<in>set (getAllSystems st). get_prop p ''id'' \<noteq> JStr k) \<or>
          getSystem st k \<in> set (getAllSystems st) \<and>
            get_prop (getSystem st k) ''id'' = JStr k) \<and>
     (\<forall>p\<in>set (getAllSystems st). well_formed p \<and> p \<in> set systems) \<and>
     (\<forall>i<length systems. \<forall>k st_i.
         well_formed (systems ! i) \<and> get_prop (systems ! i) ''id'' = JStr k \<and>
         init_registry call (take i systems) = Inr st_i \<and> \<not> map_has (registry st_i) (JStr k)
         \<longrightarrow> systems ! i \<in> set (getAllSystems st) \<and> getSystem st k = systems ! i)"
proof -
  from assms obtain st where st: "init_registry call systems = Inr st"
    unfolding init_registry_def using register_all_total by blast
  have inv: "c \<notin> set (getAllSystems st) \<and> (\<forall>k. getSystem st k \<noteq> c)"
    if c: "c \<in> set systems"
       "typeof (get_prop c ''id'') \<noteq> TString \<or>
        typeof (get_prop c ''name'') \<noteq> TString \<or>
        typeof (get_prop c ''description'') \<noteq> TString \<or>
        typeof (get_prop c ''format'') \<noteq> TFunction" for c
  proof -
    from c(2) have nv: "\<not> validateSystem c"
      by (auto simp: validateSystem_well_formed well_formed_def)
    have "c \<notin> set (getAllSystems st)"
      using getAllSystems_valid [OF st] nv by blast
    moreover have "getSystem st k \<noteq> c" for k
    proof
      assume e: "getSystem st k = c"
      from assms c(1) have "\<not> nullish c" by blast
      then have "c \<noteq> JUndefined" by auto
      with getSystem_valid_or_absent [OF st, of k] e nv show False by simp
    qed
    ultimately show ?thesis by blast
  qed
  have look: "getSystem st k =
         (case find (\<lambda>s. well_formed s \<and> get_prop s ''id'' = JStr k) systems of
            None \<Rightarrow> JUndefined | Some s \<Rightarrow> s)" for k
    using getSystem_find [OF st, of k] by (simp add: validateSystem_well_formed)
  have hit: "getSystem st k = JUndefined \<and>
            (\<forall>p\<in>set (getAllSystems st). get_prop p ''id'' \<noteq> JStr k) \<or>
          getSystem st k \<in> set (getAllSystems st) \<and>
            get_prop (getSystem st k) ''id'' = JStr k" for k
    using st by (rule registry_hit_or_miss)
  have wf: "well_formed p \<and> p \<in> set systems" if "p \<in> set (getAllSystems st)" for p
    using getAllSystems_valid [OF st that] by (simp add: validateSystem_well_formed)
  have acc: "systems ! i \<in> set (getAllSystems st) \<and> getSystem st k = systems ! i"
    if "i < length systems" "well_formed (systems ! i)" "get_prop (systems ! i) ''id'' = JStr k"
       "init_registry call (take i systems) = Inr st_i" "\<not> map_has (registry st_i) (JStr k)"
    for i k st_i
  proof -
    have "accepted_at systems i"
      using that by (auto simp: validateSystem_well_formed intro: fresh_id_accepted)
    then show ?thesis
      using accepted_retrievable [OF st] that(3) by blast
  qed
  show ?thesis
  proof (intro exI [of _ st] conjI ballI allI impI)
    show "init_registry call systems = Inr st" by (rule st)
  qed (use inv look hit wf acc in blast)+
qed

theorem invalid_candidates_excluded_witness:
  "\<not> nullish (provider ''a'' ''A'' 0) \<and> id_printable no_calls (provider ''a'' ''A'' 0) \<and>
   \<not> nullish no_id \<and> id_printable no_calls no_id \<and>
   \<not> nullish (numeric_name ''b'') \<and> id_printable no_calls (numeric_name ''b'') \<and>
   \<not> nullish (no_description ''c'') \<and> id_printable no_calls (no_description ''c'') \<and>
   \<not> nullish (text_format ''d'') \<and> id_printable no_calls (text_format ''d'') \<and>
   \<not> nullish (no_format ''e'') \<and> id_printable no_calls (no_format ''e'') \<and>
   \<not> nullish object_id \<and> id_printable no_calls object_id \<and>
   \<not> nullish (provider ''f'' ''F'' 1) \<and> id_printable no_calls (provider ''f'' ''F'' 1) \<and>
   typeof (get_prop no_id ''id'') \<noteq> TString \<and>
   typeof (get_prop (numeric_name ''b'') ''name'') \<noteq> TString \<and>
   typeof (get_prop (no_description ''c'') ''description'') \<noteq> TString \<and>
   typeof (get_prop (text_format ''d'') ''format'') \<noteq> TFunction \<and>
   typeof (get_prop (no_format ''e'') ''format'') \<noteq> TFunction \<and>
   typeof (get_prop object_id ''id'') \<noteq> TString \<and>
   (\<exists>st. init_registry no_calls
            [provider ''a'' ''A'' 0, no_id, numeric_name ''b'', no_description ''c'',
             text_format ''d'', no_format ''e'', object_id, provider ''f'' ''F'' 1] = Inr st \<and>
      no_id \<notin> set (getAllSystems st) \<and>
      numeric_name ''b'' \<notin> set (getAllSystems st) \<and>
      no_description ''c'' \<notin> set (getAllSystems st) \<and>
      text_format ''d'' \<notin> set (getAllSystems st) \<and>
      no_format ''e'' \<notin> set (getAllSystems st) \<and>
      object_id \<notin> set (getAllSystems st) \<and>
      getSystem st ''b'' = JUndefined \<and> getSystem st ''c'' = JUndefined \<and>
      getSystem st ''d'' = JUndefined \<and> getSystem st ''e'' = JUndefined \<and>
      getSystem st ''a'' = provider ''a'' ''A'' 0 \<and>
      provider ''f'' ''F'' 1 \<in> set (getAllSystems st) \<and>
      getSystem st ''f'' = provider ''f'' ''F'' 1)"
proof -
  let ?ex = "[provider ''a'' ''A'' 0, no_id, numeric_name ''b'', no_description ''c'',
             text_format ''d'', no_format ''e'', object_id, provider ''f'' ''F'' 1]"
  let ?pre = "\<lparr>registry = [(JStr ''a'', provider ''a'' ''A'' 0)],
           console = [Invalid_system_definition (JStr ''unknown''),
                      Invalid_system_definition (JStr ''b''),
                      Invalid_system_definition (JStr ''c''),
                      Invalid_system_definition (JStr ''d''),
                      Invalid_system_definition (JStr ''e''),
                      Invalid_system_definition JUndefined]\<rparr>"
  have n: "\<not> nullish (provider ''a'' ''A'' 0)" "\<not> nullish no_id" "\<not> nullish (numeric_name ''b'')"
      "\<not> nullish (no_description ''c'')" "\<not> nullish (text_format ''d'')"
      "\<not> nullish (no_format ''e'')" "\<not> nullish object_id" "\<not> nullish (provider ''f'' ''F'' 1)"
    by (simp_all add: provider_def no_id_def numeric_name_def no_description_def
        text_format_def no_format_def object_id_def)
  have p: "id_printable no_calls (provider ''a'' ''A'' 0)" "id_printable no_calls no_id"
      "id_printable no_calls (numeric_name ''b'')" "id_printable no_calls (no_description ''c'')"
      "id_printable no_calls (text_format ''d'')" "id_printable no_calls (no_format ''e'')"
      "id_printable no_calls object_id" "id_printable no_calls (provider ''f'' ''F'' 1)"
    by (simp_all add: id_printable_def nullish_coalesce_def provider_def no_id_def
        numeric_name_def no_description_def text_format_def no_format_def object_id_def
        no_calls_def)
  from n p have h: "\<forall>c\<in>set ?ex. \<not> nullish c \<and> id_printable no_calls c"
    by simp
  have m: "typeof (get_prop no_id ''id'') \<noteq> TString"
      "typeof (get_prop (numeric_name ''b'') ''name'') \<noteq> TString"
      "typeof (get_prop (no_description ''c'') ''description'') \<noteq> TString"
      "typeof (get_prop (text_format ''d'') ''format'') \<noteq> TFunction"
      "typeof (get_prop (no_format ''e'') ''format'') \<noteq> TFunction"
      "typeof (get_prop object_id ''id'') \<noteq> TString"
    by (simp_all add: no_id_def numeric_name_def no_description_def text_format_def
        no_format_def object_id_def)
  have pre: "init_registry no_calls (take 7 ?ex) = Inr ?pre"
    by (simp add: init_registry_def register_step_def validateSystem_def member_access_def
        map_has_def map_set_def nullish_coalesce_def provider_def no_id_def numeric_name_def
        no_description_def text_format_def no_format_def object_id_def no_calls_def)
  have fresh: "\<not> map_has (registry ?pre) (JStr ''f'')"
    by (simp add: map_has_def)
  have v: "well_formed (?ex ! 7)" "get_prop (?ex ! 7) ''id'' = JStr ''f''"
    by (simp_all add: well_formed_def provider_def)
  have f: "find (\<lambda>s. well_formed s \<and> get_prop s ''id'' = JStr ''a'') ?ex = Some (provider ''a'' ''A'' 0)"
      "find (\<lambda>s. well_formed s \<and> get_prop s ''id'' = JStr ''b'') ?ex = None"
      "find (\<lambda>s. well_formed s \<and> get_prop s ''id'' = JStr ''c'') ?ex = None"
      "find (\<lambda>s. well_formed s \<and> get_prop s ''id'' = JStr ''d'') ?ex = None"
      "find (\<lambda>s. well_formed s \<and> get_prop s ''id'' = JStr ''e'') ?ex = None"
    by (simp_all add: well_formed_def provider_def no_id_def numeric_name_def
        no_description_def text_format_def no_format_def object_id_def)
  from invalid_candidates_excluded [OF h] obtain st where
    st: "init_registry no_calls ?ex = Inr st"
    and a: "\<forall>c\<in>set ?ex.
         typeof (get_prop c ''id'') \<noteq> TString \<or>
         typeof (get_prop c ''name'') \<noteq> TString \<or>
         typeof (get_prop c ''description'') \<noteq> TString \<or>
         typeof (get_prop c ''format'') \<noteq> TFunction
         \<longrightarrow> c \<notin> set (getAllSystems st) \<and> (\<forall>k. getSystem st k \<noteq> c)"
    and l: "\<forall>k. getSystem st k =
         (case find (\<lambda>s. well_formed s \<and> get_prop s ''id'' = JStr k) ?ex of
            None \<Rightarrow> JUndefined | Some s \<Rightarrow> s)"
    and b: "\<forall>i<length ?ex. \<forall>k st_i.
         well_formed (?ex ! i) \<and> get_prop (?ex ! i) ''id'' = JStr k \<and>
         init_registry no_calls (take i ?ex) = Inr st_i \<and> \<not> map_has (registry st_i) (JStr k)
         \<longrightarrow> ?ex ! i \<in> set (getAllSystems st) \<and> getSystem st k = ?ex ! i"
    by blast
  have e1: "no_id \<notin> set (getAllSystems st)"
    using a m(1) by simp
  have e2: "numeric_name ''b'' \<notin> set (getAllSystems st)"
    using a m(2) by simp
  have e3: "no_description ''c'' \<notin> set (getAllSystems st)"
    using a m(3) by simp
  have e4: "text_format ''d'' \<notin> set (getAllSystems st)"
    using a m(4) by simp
  have e5: "no_format ''e'' \<notin> set (getAllSystems st)"
    using a m(5) by simp
  have e6: "object_id \<notin> set (getAllSystems st)"
    using a m(6) by simp
  have g: "getSystem st ''a'' = provider ''a'' ''A'' 0" "getSystem st ''b'' = JUndefined"
      "getSystem st ''c'' = JUndefined" "getSystem st ''d'' = JUndefined"
      "getSystem st ''e'' = JUndefined"
    using l f by simp_all
  have "7 < length ?ex" by simp
  with b v pre fresh have "?ex ! 7 \<in> set (getAllSystems st) \<and> getSystem st ''f'' = ?ex ! 7"
    by blast
  then have 2: "provider ''f'' ''F'' 1 \<in> set (getAllSystems st)"
      "getSystem st ''f'' = provider ''f'' ''F'' 1"
    by simp_all
  show ?thesis
    by (intro conjI exI [of _ st])
       (rule n p m st e1 e2 e3 e4 e5 e6 g 2)+
qed

text \<open>
  The claim as first stated has \<open>getSystem\<close> return absent for the id of a rejected
  candidate. The registry is keyed by id alone: when a valid provider with that id was
  accepted, the lookup returns that provider.
\<close>

theorem invalid_id_lookup_counterexample:
  "typeof (get_prop (no_format ''a'') ''format'') \<noteq> TFunction \<and>
   \<not> validateSystem (no_format ''a'') \<and>
   get_prop (no_format ''a'') ''id'' = JStr ''a'' \<and>
   init_registry no_calls [provider ''a'' ''A'' 0, no_format ''a''] =
     Inr \<lparr>registry = [(JStr ''a'', provider ''a'' ''A'' 0)],
          console = [Invalid_system_definition (JStr ''a'')]\<rparr> \<and>
   getSystem \<lparr>registry = [(JStr ''a'', provider ''a'' ''A'' 0)],
          console = [Invalid_system_definition (JStr ''a'')]\<rparr> ''a'' = provider ''a'' ''A'' 0 \<and>
   provider ''a'' ''A'' 0 \<noteq> JUndefined"
  by (simp add: init_registry_def register_step_def validateSystem_def member_access_def
      map_has_def map_set_def map_get_def getSystem_def provider_def no_format_def
      nullish_coalesce_def)

text \<open>
  The claim as first stated also has every malformed candidate skipped without an
  exception. A null candidate is rejected by \<open>validateSystem\<close>, and the member access that
  builds the warning then throws. A candidate whose \<open>id\<close> is an object with neither
  \<open>toString\<close> nor \<open>valueOf\<close> callable is rejected as well, and the template of the warning
  throws when it converts that \<open>id\<close>. Both happen whatever the functions of the candidates
  do when they are called.
\<close>

lemma null_candidate_throws:
  "\<not> validateSystem JNull \<and> init_registry call [provider ''a'' ''A'' 0, JNull] = Inl TypeError"
  by (simp add: init_registry_def register_step_def validateSystem_def member_access_def
      map_has_def map_set_def provider_def)

lemma unprintable_id_throws:
  "\<not> nullish unprintable_id \<and> \<not> validateSystem unprintable_id \<and>
   typeof (get_prop unprintable_id ''id'') \<noteq> TString \<and>
   init_registry call [provider ''a'' ''A'' 0, unprintable_id] = Inl TypeError"
  by (simp add: init_registry_def register_step_def validateSystem_def member_access_def
      map_has_def map_set_def provider_def unprintable_id_def nullish_coalesce_def
      valueOf_step_def)


text \<open>
  Claim C2. When two valid providers of the list share an id, \<open>getSystem\<close> of that id
  returns the first valid candidate with it in list order, which is the only element of
  \<open>getAllSystems\<close> with that id; the position of the second is not accepted; and
  \<open>getAllSystems\<close> is the candidates at the accepted positions, in list order, with
  pairwise distinct ids.
\<close>

theorem duplicate_id_first_wins:
  assumes "init_registry call systems = Inr st"
      and "i < j" and "j < length systems"
      and "validateSystem (systems ! i)" and "validateSystem (systems ! j)"
      and "get_prop (systems ! i) ''id'' = JStr k" and "get_prop (systems ! j) ''id'' = JStr k"
  shows "find (\<lambda>s. validateSystem s \<and> get_prop s ''id'' = JStr k) systems = Some (getSystem st k) \<and>
         (\<forall>p\<in>set (getAllSystems st). get_prop p ''id'' = JStr k \<longrightarrow> p = getSystem st k) \<and>
         \<not> accepted_at systems j \<and>
         getAllSystems st =
           map (nth systems) (filter (accepted_at systems) [0..<length systems]) \<and>
         distinct (map (\<lambda>p. get_prop p ''id'') (getAllSystems st))"
proof -
  have "systems ! i \<in> set systems"
    using assms(2,3) by simp
  then have "find (\<lambda>s. validateSystem s \<and> get_prop s ''id'' = JStr k) systems \<noteq> None"
    using assms(4,6) by (auto simp: find_None_iff)
  then have 1: "find (\<lambda>s. validateSystem s \<and> get_prop s ''id'' = JStr k) systems = Some (getSystem st k)"
    by (auto simp: getSystem_find [OF assms(1)])
  have 2: "\<forall>p\<in>set (getAllSystems st). get_prop p ''id'' = JStr k \<longrightarrow> p = getSystem st k"
    using registry_lookup [OF assms(1)] by (metis getSystem_def)
  have 3: "\<not> accepted_at systems j"
    using assms(2,4,6,7) by (auto simp: accepted_at_iff)
  show ?thesis
    using 1 2 3 getAllSystems_accepted [OF assms(1)] getAllSystems_distinct_ids [OF assms(1)]
    by blast
qed

theorem duplicate_id_first_wins_witness:
  "init_registry no_calls [provider ''a'' ''First'' 0, provider ''a'' ''Second'' 1] =
     Inr \<lparr>registry = [(JStr ''a'', provider ''a'' ''First'' 0)],
          console = [Duplicate_system_ID (JStr ''a'')]\<rparr> \<and>
   getSystem \<lparr>registry = [(JStr ''a'', provider ''a'' ''First'' 0)],
          console = [Duplicate_system_ID (JStr ''a'')]\<rparr> ''a'' = provider ''a'' ''First'' 0 \<and>
   getAllSystems \<lparr>registry = [(JStr ''a'', provider ''a'' ''First'' 0)],
          console = [Duplicate_system_ID (JStr ''a'')]\<rparr> = [provider ''a'' ''First'' 0] \<and>
   \<not> accepted_at [provider ''a'' ''First'' 0, provider ''a'' ''Second'' 1] 1"
proof -
  let ?ex = "[provider ''a'' ''First'' 0, provider ''a'' ''Second'' 1]"
  let ?st = "\<lparr>registry = [(JStr ''a'', provider ''a'' ''First'' 0)],
          console = [Duplicate_system_ID (JStr ''a'')]\<rparr>"
  have h: "init_registry no_calls ?ex = Inr ?st"
    by (simp add: init_registry_def register_step_def no_calls_def validateSystem_def member_access_def
        map_has_def map_set_def provider_def)
  have v: "validateSystem (?ex ! 0)" "validateSystem (?ex ! 1)"
      "get_prop (?ex ! 0) ''id'' = JStr ''a''" "get_prop (?ex ! 1) ''id'' = JStr ''a''"
    by (simp_all add: validateSystem_def provider_def)
  have l: "(0::nat) < 1" "1 < length ?ex" by simp_all
  have f: "find (\<lambda>s. validateSystem s \<and> get_prop s ''id'' = JStr ''a'') ?ex = Some (provider ''a'' ''First'' 0)"
    by (simp add: validateSystem_def provider_def)
  from duplicate_id_first_wins [OF h l v(1,2,3,4)] f h
  show ?thesis
    by (simp add: getAllSystems_def map_values_def)
qed

text \<open>
  Claim C3. \<open>getDefaultSystem\<close> returns the accepted provider whose id is
  \<open>standard\<close>, wherever it stands in the registry; when there is none and the registry is
  not empty it returns the first accepted provider; on an empty registry it has no provider
  to return (the result is \<open>undefined\<close>) and the host's first tick fails on it with a
  TypeError.
\<close>

theorem getDefaultSystem_standard_else_first:
  assumes "init_registry call systems = Inr st"
  shows "(\<forall>p\<in>set (getAllSystems st).
            get_prop p ''id'' = JStr ''standard'' \<longrightarrow> getDefaultSystem st = p) \<and>
         ((\<forall>p\<in>set (getAllSystems st). get_prop p ''id'' \<noteq> JStr ''standard'') \<and>
            getAllSystems st \<noteq> [] \<longrightarrow> getDefaultSystem st = hd (getAllSystems st)) \<and>
         (getAllSystems st = [] \<longrightarrow>
            getDefaultSystem st = JUndefined \<and>
            tick_format_lookup (getDefaultSystem st) = Inl TypeError)"
proof -
  have 1: "getDefaultSystem st = p"
    if "p \<in> set (getAllSystems st)" "get_prop p ''id'' = JStr ''standard''" for p
  proof -
    have "map_get (registry st) (JStr ''standard'') = p"
      using registry_lookup [OF assms that(1)] that(2) by simp
    moreover have "\<not> nullish p"
      using getAllSystems_valid [OF assms that(1)] validateSystem_not_nullish by blast
    ultimately show ?thesis
      by (simp add: getDefaultSystem_def nullish_coalesce_def)
  qed
  have 2: "getDefaultSystem st = hd (getAllSystems st)"
    if "\<forall>p\<in>set (getAllSystems st). get_prop p ''id'' \<noteq> JStr ''standard''"
       "getAllSystems st \<noteq> []"
  proof -
    have "map_get (registry st) (JStr ''standard'') = JUndefined"
      using registry_miss [OF assms that(1)] .
    then show ?thesis
      using that(2)
      by (cases "map_values (registry st)")
         (simp_all add: getDefaultSystem_def nullish_coalesce_def getAllSystems_def)
  qed
  have 3: "getDefaultSystem st = JUndefined \<and>
           tick_format_lookup (getDefaultSystem st) = Inl TypeError"
    if "getAllSystems st = []"
  proof -
    from that have "registry st = []"
      by (simp add: getAllSystems_def map_values_def)
    then have "getDefaultSystem st = JUndefined"
      by (simp add: getDefaultSystem_def nullish_coalesce_def map_get_def map_values_def)
    then show ?thesis
      by (simp add: tick_format_lookup_def member_access_def)
  qed
  from 1 2 3 show ?thesis by blast
qed

theorem getDefaultSystem_standard_else_first_witness:
  "init_registry no_calls [provider ''epoch-seconds'' ''Unix Epoch'' 0, provider ''standard'' ''Standard Time'' 1,
                  provider ''holocene'' ''Holocene Era'' 2] =
     Inr \<lparr>registry = [(JStr ''epoch-seconds'', provider ''epoch-seconds'' ''Unix Epoch'' 0),
                      (JStr ''standard'', provider ''standard'' ''Standard Time'' 1),
                      (JStr ''holocene'', provider ''holocene'' ''Holocene Era'' 2)],
          console = []\<rparr> \<and>
   getDefaultSystem \<lparr>registry = [(JStr ''epoch-seconds'', provider ''epoch-seconds'' ''Unix Epoch'' 0),
                      (JStr ''standard'', provider ''standard'' ''Standard Time'' 1),
                      (JStr ''holocene'', provider ''holocene'' ''Holocene Era'' 2)],
          console = []\<rparr> = provider ''standard'' ''Standard Time'' 1 \<and>
   init_registry no_calls [provider ''epoch-seconds'' ''Unix Epoch'' 0, provider ''holocene'' ''Holocene Era'' 2] =
     Inr \<lparr>registry = [(JStr ''epoch-seconds'', provider ''epoch-seconds'' ''Unix Epoch'' 0),
                      (JStr ''holocene'', provider ''holocene'' ''Holocene Era'' 2)],
          console = []\<rparr> \<and>
   getDefaultSystem \<lparr>registry = [(JStr ''epoch-seconds'', provider ''epoch-seconds'' ''Unix Epoch'' 0),
                      (JStr ''holocene'', provider ''holocene'' ''Holocene Era'' 2)],
          console = []\<rparr> = provider ''epoch-seconds'' ''Unix Epoch'' 0 \<and>
   init_registry no_calls [] = Inr \<lparr>registry = [], console = []\<rparr> \<and>
   getDefaultSystem \<lparr>registry = [], console = []\<rparr> = JUndefined \<and>
   tick_format_lookup (getDefaultSystem \<lparr>registry = [], console = []\<rparr>) = Inl TypeError"
proof -
  let ?e = "provider ''epoch-seconds'' ''Unix Epoch'' 0"
  let ?s = "provider ''standard'' ''Standard Time'' 1"
  let ?h = "provider ''holocene'' ''Holocene Era'' 2"
  let ?st1 = "\<lparr>registry = [(JStr ''epoch-seconds'', ?e), (JStr ''standard'', ?s),
                (JStr ''holocene'', ?h)], console = []\<rparr>"
  let ?st2 = "\<lparr>registry = [(JStr ''epoch-seconds'', ?e), (JStr ''holocene'', ?h)], console = []\<rparr>"
  let ?st3 = "\<lparr>registry = [], console = []\<rparr>"
  have i1: "init_registry no_calls [?e, ?s, ?h] = Inr ?st1"
    by (simp add: init_registry_def register_step_def no_calls_def validateSystem_def member_access_def
        map_has_def map_set_def provider_def)
  have i2: "init_registry no_calls [?e, ?h] = Inr ?st2"
    by (simp add: init_registry_def register_step_def no_calls_def validateSystem_def member_access_def
        map_has_def map_set_def provider_def)
  have i3: "init_registry no_calls [] = Inr ?st3"
    by (simp add: init_registry_def)
  have a1: "?s \<in> set (getAllSystems ?st1)" "get_prop ?s ''id'' = JStr ''standard''"
    by (simp_all add: getAllSystems_def map_values_def provider_def)
  have a2: "\<forall>p\<in>set (getAllSystems ?st2). get_prop p ''id'' \<noteq> JStr ''standard''"
      "getAllSystems ?st2 \<noteq> []" "hd (getAllSystems ?st2) = ?e"
    by (simp_all add: getAllSystems_def map_values_def provider_def)
  have a3: "getAllSystems ?st3 = []"
    by (simp add: getAllSystems_def map_values_def)
  from getDefaultSystem_standard_else_first [OF i1] a1
  have r1: "getDefaultSystem ?st1 = ?s" by blast
  from getDefaultSystem_standard_else_first [OF i2] a2
  have r2: "getDefaultSystem ?st2 = ?e" by metis
  from getDefaultSystem_standard_else_first [OF i3] a3
  have r3: "getDefaultSystem ?st3 = JUndefined \<and>
            tick_format_lookup (getDefaultSystem ?st3) = Inl TypeError" by blast
  from i1 i2 i3 r1 r2 r3 show ?thesis by blast
qed
section \<open>Renderer: proofs\<close>

lemma attr_update_idem: "attr_update k v (attr_update k v as) = attr_update k v as"
  by (induction as) auto

lemma map_of_attr_update: "map_of (attr_update k v as) k = Some v"
  by (induction as) auto

lemma forEach_segment_children:
  "forEach_segment S d segs i (Element t as cs) =
     Element t as (cs @ (if i = 0 then (case segs of [] \<Rightarrow> []
                                        | seg # rest \<Rightarrow> segment_node S seg # separator_pairs S d rest)
                         else separator_pairs S d segs))"
proof (induction segs arbitrary: i cs)
  case Nil
  show ?case by (simp add: separator_pairs_def)
next
  case (Cons seg rest)
  show ?case
    by (simp add: Cons.IH Let_def separator_pairs_def separator_node_def segment_node_def)
qed

lemma render_Element:
  "render S d (Element t as cs) =
     Element t (attr_update ''class'' (''display display--'' @ display_type d) as) (painted S d)"
  unfolding painted_def
  by (cases d)
     (simp_all add: render_def renderUnified_def renderSplit_def renderSegmented_def Let_def
        set_className_def createElement_def forEach_segment_children)

lemma render_Text: "render S d (Text s) = Text s"
  by (cases d)
     (simp_all add: render_def renderUnified_def renderSplit_def renderSegmented_def Let_def
        set_className_def)

text \<open>
  Claim C4. \<open>render\<close> is idempotent: rendering the same display value a second time
  leaves the target as the first call left it. The children that were under the target
  before the call do not matter, and the target's class is the one of the variant.
\<close>

theorem render_idempotent:
  "render S d (render S d c) = render S d c \<and>
   render S d (Element t as cs) = render S d (Element t as []) \<and>
   getAttribute (render S d (Element t as cs)) ''class'' = Some (''display display--'' @ display_type d)"
proof -
  have "render S d (render S d c) = render S d c"
  proof (cases c)
    case (Element t' as' cs')
    then show ?thesis
      by (simp only: render_Element attr_update_idem)
  next
    case (Text s)
    then show ?thesis by (simp only: render_Text)
  qed
  moreover have "render S d (Element t as cs) = render S d (Element t as [])"
    by (simp only: render_Element)
  moreover have "getAttribute (render S d (Element t as cs)) ''class'' =
      Some (''display display--'' @ display_type d)"
    by (simp only: render_Element getAttribute.simps map_of_attr_update)
  ultimately show ?thesis by blast
qed












lemma className_Element:
  "className (Element t as cs) = (case map_of as ''class'' of None \<Rightarrow> [] | Some c \<Rightarrow> c)"
  by (simp add: className_def)


lemma classes_below_text_element [simp]:
  "map className (filter is_element (descendants (text_element t c s))) = []"
  by (simp add: text_element_def set_className_def createElement_def)

lemma className_text_element [simp]: "className (text_element t c s) = c"
  by (simp add: text_element_def set_className_def createElement_def className_def)

lemma is_element_text_element [simp]: "is_element (text_element t c s)"
  by (simp add: text_element_def set_className_def createElement_def)

lemma classes_below_render_Unified:
  "classes_below (render S (Unified d) (Element t as cs)) =
     [''display__main''] @
     (if truthy (u_prefix d) then [''display__prefix''] else []) @
     [''display__value''] @
     (if truthy (u_suffix d) then [''display__suffix''] else []) @
     (if truthy (u_label d) then [''display__label''] else []) @
     (if truthy (u_sublabel d) then [''display__sublabel''] else [])"
  by (simp add: classes_below_def render_def renderUnified_def Let_def
      set_className_def createElement_def className_Element)


lemma classes_below_render_Split:
  "classes_below (render S (Split d) (Element t as cs)) =
     [''display__date''] @
     (if truthy (date_era d) then [''display__era''] else []) @
     [''display__separator'', ''display__time''] @
     (if truthy (time_period d) then [''display__period''] else [])"
  by (simp add: classes_below_def render_def renderSplit_def Let_def text_element_def
      set_className_def createElement_def className_Element)

lemma classes_below_Text: "classes_below (Text s) = []"
  by (simp add: classes_below_def)

lemma truthy_drop_empty: "truthy (drop_empty x) = truthy x"
  by (cases x) auto

lemma the_drop_empty: "truthy x \<Longrightarrow> the (drop_empty x) = the x"
  by (cases x) auto

lemma renderUnified_drop_empty:
  "renderUnified d c =
     renderUnified (d\<lparr>u_prefix := drop_empty (u_prefix d), u_suffix := drop_empty (u_suffix d),
                      u_label := drop_empty (u_label d), u_sublabel := drop_empty (u_sublabel d)\<rparr>) c"
  by (simp add: renderUnified_def Let_def truthy_drop_empty the_drop_empty cong: if_cong)

lemma renderSplit_drop_empty:
  "renderSplit d c =
     renderSplit (d\<lparr>date_era := drop_empty (date_era d),
                    time_period := drop_empty (time_period d)\<rparr>) c"
  by (simp add: renderSplit_def Let_def truthy_drop_empty the_drop_empty cong: if_cong)

lemma class_absent_Unified:
  "classes_below (render S (Unified d) c) =
     (if is_element c then
        [''display__main''] @
        (if truthy (u_prefix d) then [''display__prefix''] else []) @
        [''display__value''] @
        (if truthy (u_suffix d) then [''display__suffix''] else []) @
        (if truthy (u_label d) then [''display__label''] else []) @
        (if truthy (u_sublabel d) then [''display__sublabel''] else [])
      else [])"
  by (cases c) (simp_all only: classes_below_render_Unified render_Text classes_below_Text
      is_element.simps if_True if_False)

lemma class_absent_Split:
  "classes_below (render S (Split d) c) =
     (if is_element c then
        [''display__date''] @
        (if truthy (date_era d) then [''display__era''] else []) @
        [''display__separator'', ''display__time''] @
        (if truthy (time_period d) then [''display__period''] else [])
      else [])"
  by (cases c) (simp_all only: classes_below_render_Split render_Text classes_below_Text
      is_element.simps if_True if_False)

text \<open>
  Claim C9. An optional text field whose value is the empty string is rendered as if it were
  left out: for a unified display this holds for prefix, suffix, label and sublabel, for a
  split display for the era and the period, and in each case no element of the
  corresponding class is painted.
\<close>

theorem empty_optional_text_is_absent:
  "render S (Unified d) c =
     render S (Unified (d\<lparr>u_prefix := drop_empty (u_prefix d), u_suffix := drop_empty (u_suffix d),
                           u_label := drop_empty (u_label d),
                           u_sublabel := drop_empty (u_sublabel d)\<rparr>)) c \<and>
   (u_prefix d = Some [] \<longrightarrow> ''display__prefix'' \<notin> set (classes_below (render S (Unified d) c))) \<and>
   (u_suffix d = Some [] \<longrightarrow> ''display__suffix'' \<notin> set (classes_below (render S (Unified d) c))) \<and>
   (u_label d = Some [] \<longrightarrow> ''display__label'' \<notin> set (classes_below (render S (Unified d) c))) \<and>
   (u_sublabel d = Some [] \<longrightarrow>
      ''display__sublabel'' \<notin> set (classes_below (render S (Unified d) c))) \<and>
   render S (Split sd) c =
     render S (Split (sd\<lparr>date_era := drop_empty (date_era sd),
                          time_period := drop_empty (time_period sd)\<rparr>)) c \<and>
   (date_era sd = Some [] \<longrightarrow> ''display__era'' \<notin> set (classes_below (render S (Split sd) c))) \<and>
   (time_period sd = Some [] \<longrightarrow> ''display__period'' \<notin> set (classes_below (render S (Split sd) c)))"
proof -
  have u: "render S (Unified d) c =
     render S (Unified (d\<lparr>u_prefix := drop_empty (u_prefix d), u_suffix := drop_empty (u_suffix d),
                           u_label := drop_empty (u_label d),
                           u_sublabel := drop_empty (u_sublabel d)\<rparr>)) c"
    using renderUnified_drop_empty [of d] by (simp add: render_def)
  have s: "render S (Split sd) c =
     render S (Split (sd\<lparr>date_era := drop_empty (date_era sd),
                          time_period := drop_empty (time_period sd)\<rparr>)) c"
    using renderSplit_drop_empty [of sd] by (simp add: render_def)
  have 1: "u_prefix d = Some [] \<longrightarrow> ''display__prefix'' \<notin> set (classes_below (render S (Unified d) c))"
    by (simp add: class_absent_Unified)
  have 2: "u_suffix d = Some [] \<longrightarrow> ''display__suffix'' \<notin> set (classes_below (render S (Unified d) c))"
    by (simp add: class_absent_Unified)
  have 3: "u_label d = Some [] \<longrightarrow> ''display__label'' \<notin> set (classes_below (render S (Unified d) c))"
    by (simp add: class_absent_Unified)
  have 4: "u_sublabel d = Some [] \<longrightarrow>
      ''display__sublabel'' \<notin> set (classes_below (render S (Unified d) c))"
    by (simp add: class_absent_Unified)
  have 5: "date_era sd = Some [] \<longrightarrow> ''display__era'' \<notin> set (classes_below (render S (Split sd) c))"
    by (simp add: class_absent_Split)
  have 6: "time_period sd = Some [] \<longrightarrow> ''display__period'' \<notin> set (classes_below (render S (Split sd) c))"
    by (simp add: class_absent_Split)
  show ?thesis
    by (intro conjI) (rule u s 1 2 3 4 5 6)+
qed

theorem empty_optional_text_is_absent_witness:
  "u_prefix \<lparr>u_value = ''42'', u_prefix = Some [], u_suffix = Some [], u_label = Some [],
             u_sublabel = Some []\<rparr> = Some [] \<and>
   date_era \<lparr>date_formatted = ''D'', date_era = Some [], time_formatted = ''T'',
             time_period = Some [], time_unitLabels = None, split_separator = None\<rparr> = Some [] \<and>
   render (\<lambda>x. ''n'')
     (Unified \<lparr>u_value = ''42'', u_prefix = Some [], u_suffix = Some [], u_label = Some [],
               u_sublabel = Some []\<rparr>) (Element ''div'' [] []) =
   render (\<lambda>x. ''n'')
     (Unified \<lparr>u_value = ''42'', u_prefix = None, u_suffix = None, u_label = None,
               u_sublabel = None\<rparr>) (Element ''div'' [] []) \<and>
   ''display__prefix'' \<notin> set (classes_below (render (\<lambda>x. ''n'')
     (Unified \<lparr>u_value = ''42'', u_prefix = Some [], u_suffix = Some [], u_label = Some [],
               u_sublabel = Some []\<rparr>) (Element ''div'' [] []))) \<and>
   ''display__era'' \<notin> set (classes_below (render (\<lambda>x. ''n'')
     (Split \<lparr>date_formatted = ''D'', date_era = Some [], time_formatted = ''T'',
             time_period = Some [], time_unitLabels = None, split_separator = None\<rparr>)
     (Element ''div'' [] [])))"
proof -
  let ?d = "\<lparr>u_value = ''42'', u_prefix = Some [], u_suffix = Some [], u_label = Some [],
             u_sublabel = Some []\<rparr>"
  let ?sd = "\<lparr>date_formatted = ''D'', date_era = Some [], time_formatted = ''T'',
             time_period = Some [], time_unitLabels = None, split_separator = None\<rparr>"
  note T = empty_optional_text_is_absent [of "\<lambda>x. ''n''" ?d "Element ''div'' [] []" ?sd]
  have p: "u_prefix ?d = Some []" by simp
  have e: "date_era ?sd = Some []" by simp
  have 1: "render (\<lambda>x. ''n'') (Unified ?d) (Element ''div'' [] []) =
      render (\<lambda>x. ''n'')
        (Unified \<lparr>u_value = ''42'', u_prefix = None, u_suffix = None, u_label = None,
               u_sublabel = None\<rparr>) (Element ''div'' [] [])"
    using T [THEN conjunct1] by simp
  have 2: "''display__prefix'' \<notin> set (classes_below (render (\<lambda>x. ''n'') (Unified ?d)
      (Element ''div'' [] [])))"
    using T [THEN conjunct2, THEN conjunct1] p by simp
  have 3: "''display__era'' \<notin> set (classes_below (render (\<lambda>x. ''n'') (Split ?sd)
      (Element ''div'' [] [])))"
    using T [THEN conjunct2, THEN conjunct2, THEN conjunct2, THEN conjunct2, THEN conjunct2,
        THEN conjunct2, THEN conjunct1] e by simp
  show ?thesis
    by (intro conjI) (rule p e 1 2 3)+
qed

section \<open>Visual renderer: proofs\<close>

lemma first_match_append_None:
  "first_match p xs i = None \<Longrightarrow> first_match p (xs @ ys) i = first_match p ys (i + length xs)"
proof (induction p xs i rule: first_match.induct)
  case (1 p i)
  show ?case by simp
next
  case (2 p s ns i)
  then show ?case by simp
next
  case (3 p t as cs ns i)
  then show ?case by (auto split: if_splits option.splits)
qed

lemma progress_bar_scaffold_eq:
  "progress_bar_scaffold S =
     Element ''svg''
       [(''class'', ''visual__svg visual__svg--bar''), (''viewBox'', ''0 0 '' @ S VISUAL_SIZE @ '' 12''),
        (''aria-hidden'', ''true'')]
       [Element ''rect''
          [(''class'', ''visual__track''), (''x'', ''0''), (''y'', ''4''),
           (''width'', S VISUAL_SIZE), (''height'', ''4''), (''rx'', ''2'')] [],
        Element ''rect''
          [(''class'', ''visual__fill''), (''x'', ''0''), (''y'', ''4''),
           (''height'', ''4''), (''rx'', ''2'')] []]"
  by (simp add: progress_bar_scaffold_def createElementNS_def)

lemma tokens_svg_bar: "class_tokens ''visual__svg visual__svg--bar'' = [''visual__svg'', ''visual__svg--bar'']"
  by (simp add: class_tokens_def ascii_whitespace_def)

lemma tokens_single:
  "class_tokens ''visual__track'' = [''visual__track'']"
  "class_tokens ''visual__fill'' = [''visual__fill'']"
  by (simp_all add: class_tokens_def ascii_whitespace_def)

lemma has_class_Element:
  "has_class c (Element t as cs) =
     (c \<in> set (class_tokens (case map_of as ''class'' of None \<Rightarrow> [] | Some k \<Rightarrow> k)))"
  by (simp add: has_class_def className_def)

lemma bar_fresh:
  assumes "querySelector (Element t as cs) ''visual__svg'' = None"
  shows "renderProgressBar ar S visual date (Element t as cs) =
     Inr (Element t as (cs @ [bar_svg S (bar_width ar S visual date)]))"
proof -
  have q: "querySelector (progress_bar_scaffold S) ''visual__fill'' = Some [1]"
    by (simp add: progress_bar_scaffold_eq querySelector_def has_class_Element tokens_single)
  show ?thesis
    using assms q
    by (simp add: renderProgressBar_def ensure_svg_def Let_def querySelector_in_def
        setAttribute_at_def)
       (simp add: progress_bar_scaffold_eq bar_svg_def bar_width_def)
qed

lemma bar_again:
  assumes "querySelector (Element t as cs) ''visual__svg'' = None"
  shows "renderProgressBar ar S visual date (Element t as (cs @ [bar_svg S w])) =
     Inr (Element t as (cs @ [bar_svg S (bar_width ar S visual date)]))"
proof -
  have h: "has_class ''visual__svg'' (bar_svg S w)"
    by (simp add: bar_svg_def has_class_Element tokens_svg_bar)
  have q0: "querySelector (Element t as (cs @ [bar_svg S w])) ''visual__svg'' = Some [length cs]"
    using assms h by (simp add: querySelector_def first_match_append_None bar_svg_def)
  have q: "querySelector (bar_svg S w) ''visual__fill'' = Some [1]"
    by (simp add: bar_svg_def querySelector_def has_class_Element tokens_single)
  show ?thesis
    using q0 q
    by (simp add: renderProgressBar_def ensure_svg_def Let_def querySelector_in_def
        setAttribute_at_def)
       (simp add: bar_svg_def bar_width_def)
qed

lemma bar_ticks_again:
  assumes "querySelector (Element t as cs) ''visual__svg'' = None"
  shows "render_ticks ar S (ProgressBar visual) dates (Element t as (cs @ [bar_svg S w])) =
     Inr (Element t as (cs @ [bar_svg S (if dates = [] then w else bar_width ar S visual (last dates))]))"
proof (induction dates arbitrary: w)
  case Nil
  show ?case by simp
next
  case (Cons d ds)
  show ?case
    by (simp add: bar_again [OF assms] Cons.IH)
qed

lemma bar_ticks_fresh:
  assumes "querySelector (Element t as cs) ''visual__svg'' = None"
  shows "render_ticks ar S (ProgressBar visual) (dates @ [date]) (Element t as cs) =
     Inr (Element t as (cs @ [bar_svg S (bar_width ar S visual date)]))"
proof (cases dates)
  case Nil
  then show ?thesis
    by (simp add: bar_fresh [OF assms])
next
  case (Cons d ds)
  then show ?thesis
    by (simp add: bar_fresh [OF assms] bar_ticks_again [OF assms])
qed

lemma bar_svg_attributes:
  assumes "querySelector (Element t as cs) ''visual__svg'' = None"
  shows "visual_attribute (Element t as (cs @ [bar_svg S w])) ''visual__fill'' ''width'' = Some w"
    and "visual_attribute (Element t as (cs @ [bar_svg S w])) ''visual__track'' ''width'' = Some (S VISUAL_SIZE)"
proof -
  have h: "has_class ''visual__svg'' (bar_svg S w)"
    by (simp add: bar_svg_def has_class_Element tokens_svg_bar)
  have q0: "querySelector (Element t as (cs @ [bar_svg S w])) ''visual__svg'' = Some [length cs]"
    using assms h by (simp add: querySelector_def first_match_append_None bar_svg_def)
  have q: "querySelector (bar_svg S w) ''visual__fill'' = Some [1]"
    by (simp add: bar_svg_def querySelector_def has_class_Element tokens_single)
  have q': "querySelector (bar_svg S w) ''visual__track'' = Some [0]"
    by (simp add: bar_svg_def querySelector_def has_class_Element tokens_single)
  show "visual_attribute (Element t as (cs @ [bar_svg S w])) ''visual__fill'' ''width'' = Some w"
    using q0 q by (simp add: visual_attribute_def visual_part_def querySelector_in_def) (simp add: bar_svg_def)
  show "visual_attribute (Element t as (cs @ [bar_svg S w])) ''visual__track'' ''width'' = Some (S VISUAL_SIZE)"
    using q0 q' by (simp add: visual_attribute_def visual_part_def querySelector_in_def) (simp add: bar_svg_def)
qed

























































lemma representable_int: "\<bar>m\<bar> < 2 ^ 53 \<Longrightarrow> representable (of_int m)"
  unfolding representable_def by (intro exI [of _ m] exI [of _ 0]) simp

lemma representable_fraction:
  "\<bar>m\<bar> < 2 ^ 53 \<Longrightarrow> k \<le> 1074 \<Longrightarrow> representable (of_int m / 2 ^ k)"
  unfolding representable_def by (intro exI [of _ m] exI [of _ k]) simp

lemma rounding_int: "rounding ar \<Longrightarrow> \<bar>m\<bar> < 2 ^ 53 \<Longrightarrow> rnd ar (of_int m) = of_int m"
  by (simp add: rounding_def representable_int)

lemma rounding_mono: "rounding ar \<Longrightarrow> x \<le> y \<Longrightarrow> rnd ar x \<le> rnd ar y"
  by (simp add: rounding_def)

lemma rounding_values:
  assumes "rounding ar"
  shows "rnd ar 0 = 0" "rnd ar 1 = 1" "rnd ar 29 = 29" "rnd ar 58 = 58" "rnd ar 60 = 60"
    "rnd ar 89 = 89" "rnd ar 90 = 90" "rnd ar 116 = 116" "rnd ar 120 = 120"
    "rnd ar (- 90) = - 90" "rnd ar (1 / 2) = 1 / 2" "rnd ar (1 / 4) = 1 / 4"
proof -
  note i = rounding_int [OF assms]
  show "rnd ar 0 = 0" using i [of 0] by simp
  show "rnd ar 1 = 1" using i [of 1] by simp
  show "rnd ar 29 = 29" using i [of 29] by simp
  show "rnd ar 58 = 58" using i [of 58] by simp
  show "rnd ar 60 = 60" using i [of 60] by simp
  show "rnd ar 89 = 89" using i [of 89] by simp
  show "rnd ar 90 = 90" using i [of 90] by simp
  show "rnd ar 116 = 116" using i [of 116] by simp
  show "rnd ar 120 = 120" using i [of 120] by simp
  show "rnd ar (- 90) = - 90" using i [of "- 90"] by simp
  have "representable (of_int 1 / 2 ^ 1)" by (rule representable_fraction) simp_all
  then show "rnd ar (1 / 2) = 1 / 2" using assms by (simp add: rounding_def)
  have "representable (of_int 1 / 2 ^ 2)" by (rule representable_fraction) simp_all
  then show "rnd ar (1 / 4) = 1 / 4" using assms by (simp add: rounding_def)
qed

lemma rounding_exact_arith: "rounding exact_arith"
  by (simp add: rounding_def exact_arith_def)


lemma exact_arith_ops:
  "fadd exact_arith x y = x + y" "fsub exact_arith x y = x - y"
  "fmul exact_arith x y = x * y" "fdiv exact_arith x y = x / y"
  "literal exact_arith x = x" "Math_PI exact_arith = pi"
  "fcos exact_arith = cos" "fsin exact_arith = sin"
  by (simp_all add: fadd_def fsub_def fmul_def fdiv_def literal_def Math_PI_def exact_arith_def)



text \<open>
  Claim C6. For a progress bar with a positive maximum, on a target that holds no visual
  yet, after any number of calls of \<open>renderVisual\<close> the width of the fill is the text of
  \<open>min (getValue instant / max) 1 * 120\<close> as the doubles compute it, for the instant of the
  last call, the track being 120 wide: a value above the maximum gives the full width, a
  negative value gives a width that is negative or zero (there is no lower clamp), and the
  value 50 of a maximum of 100 gives half the width of the track. In an arithmetic without
  rounding errors the width is the text of the exact \<open>min (getValue instant / max) 1 * 120\<close>.
\<close>

theorem progress_bar_fill_width:
  assumes "0 < bar_max visual"
      and "rounding ar"
      and "querySelector (Element t as cs) ''visual__svg'' = None"
  shows "\<exists>c'. render_ticks ar S (ProgressBar visual) (dates @ [date]) (Element t as cs) = Inr c' \<and>
     visual_attribute c' ''visual__fill'' ''width'' =
       Some (S (fmul ar (min (fdiv ar (bar_getValue visual date) (bar_max visual)) 1) 120)) \<and>
     visual_attribute c' ''visual__track'' ''width'' = Some (S 120) \<and>
     (bar_max visual < bar_getValue visual date \<longrightarrow>
        visual_attribute c' ''visual__fill'' ''width'' = Some (S 120)) \<and>
     (bar_getValue visual date < 0 \<longrightarrow>
        fmul ar (min (fdiv ar (bar_getValue visual date) (bar_max visual)) 1) 120 \<le> 0) \<and>
     (bar_max visual = 100 \<and> bar_getValue visual date = 50 \<longrightarrow>
        visual_attribute c' ''visual__fill'' ''width'' = Some (S (120 / 2))) \<and>
     ((\<forall>x. rnd ar x = x) \<longrightarrow>
        visual_attribute c' ''visual__fill'' ''width'' =
          Some (S (min (bar_getValue visual date / bar_max visual) 1 * 120)))"
proof -
  let ?c = "Element t as (cs @ [bar_svg S (bar_width ar S visual date)])"
  let ?q = "fdiv ar (bar_getValue visual date) (bar_max visual)"
  note v = rounding_values [OF assms(2)]
  have r: "render_ticks ar S (ProgressBar visual) (dates @ [date]) (Element t as cs) = Inr ?c"
    by (rule bar_ticks_fresh [OF assms(3)])
  have w: "visual_attribute ?c ''visual__fill'' ''width'' = Some (S (fmul ar (min ?q 1) 120))"
    by (simp add: bar_svg_attributes(1) [OF assms(3)] bar_width_def VISUAL_SIZE_def)
  have tr: "visual_attribute ?c ''visual__track'' ''width'' = Some (S 120)"
    by (simp add: bar_svg_attributes(2) [OF assms(3)] VISUAL_SIZE_def)
  have over: "fmul ar (min ?q 1) 120 = 120"
    if "bar_max visual < bar_getValue visual date"
  proof -
    from that assms(1) have "1 \<le> bar_getValue visual date / bar_max visual"
      by simp
    then have "rnd ar 1 \<le> ?q"
      unfolding fdiv_def by (rule rounding_mono [OF assms(2)])
    then have "min ?q 1 = 1"
      by (simp add: v)
    then show ?thesis
      by (simp add: fmul_def v)
  qed
  have neg: "fmul ar (min ?q 1) 120 \<le> 0"
    if "bar_getValue visual date < 0"
  proof -
    from that assms(1) have "bar_getValue visual date / bar_max visual \<le> 0"
      by (simp add: divide_le_0_iff)
    then have "?q \<le> rnd ar 0"
      unfolding fdiv_def by (rule rounding_mono [OF assms(2)])
    then have q: "?q \<le> 0"
      by (simp add: v)
    then have "min ?q 1 = ?q"
      by simp
    moreover from q have "?q * 120 \<le> 0"
      by simp
    then have "rnd ar (?q * 120) \<le> rnd ar 0"
      by (rule rounding_mono [OF assms(2)])
    ultimately show ?thesis
      by (simp add: fmul_def v)
  qed
  have half: "fmul ar (min ?q 1) 120 = 120 / 2"
    if "bar_max visual = 100 \<and> bar_getValue visual date = 50"
  proof -
    from that have q: "?q = 1 / 2"
      by (simp add: fdiv_def v)
    have "fmul ar (min ?q 1) 120 = rnd ar (min (1 / 2) 1 * 120)"
      unfolding fmul_def q ..
    also have "min (1 / 2) 1 * 120 = (60::real)"
      by simp
    finally show ?thesis
      by (simp add: v)
  qed
  have exact: "fmul ar (min ?q 1) 120 = min (bar_getValue visual date / bar_max visual) 1 * 120"
    if "\<forall>x. rnd ar x = x"
    using that by (simp add: fmul_def fdiv_def)
  show ?thesis
  proof (intro exI [of _ ?c] conjI impI)
    show "render_ticks ar S (ProgressBar visual) (dates @ [date]) (Element t as cs) = Inr ?c"
      by (rule r)
    show "visual_attribute ?c ''visual__fill'' ''width'' = Some (S (fmul ar (min ?q 1) 120))"
      by (rule w)
    show "visual_attribute ?c ''visual__track'' ''width'' = Some (S 120)"
      by (rule tr)
    show "visual_attribute ?c ''visual__fill'' ''width'' = Some (S 120)"
      if "bar_max visual < bar_getValue visual date"
      using w over [OF that] by (simp only:)
    show "fmul ar (min ?q 1) 120 \<le> 0" if "bar_getValue visual date < 0"
      using that by (rule neg)
    show "visual_attribute ?c ''visual__fill'' ''width'' = Some (S (120 / 2))"
      if "bar_max visual = 100 \<and> bar_getValue visual date = 50"
      using w half [OF that] by (simp only:)
    show "visual_attribute ?c ''visual__fill'' ''width'' =
          Some (S (min (bar_getValue visual date / bar_max visual) 1 * 120))"
      if "\<forall>x. rnd ar x = x"
      using w exact [OF that] by (simp only:)
  qed
qed

















lemma fresh_div: "querySelector (Element ''div'' [] []) ''visual__svg'' = None"
  by (simp add: querySelector_def)


theorem progress_bar_fill_width_witness:
  "0 < bar_max demo_bar \<and> rounding exact_arith \<and>
   querySelector (Element ''div'' [] []) ''visual__svg'' = None \<and>
   (\<exists>c'. render_ticks exact_arith demo_String (ProgressBar demo_bar) [50] (Element ''div'' [] []) = Inr c' \<and>
      visual_attribute c' ''visual__fill'' ''width'' = Some ''60'' \<and>
      visual_attribute c' ''visual__track'' ''width'' = Some ''120'') \<and>
   (\<exists>c'. render_ticks exact_arith demo_String (ProgressBar demo_bar) [50, 150] (Element ''div'' [] []) = Inr c' \<and>
      visual_attribute c' ''visual__fill'' ''width'' = Some ''120'') \<and>
   (\<exists>c'. render_ticks exact_arith demo_String (ProgressBar demo_bar) [- 10] (Element ''div'' [] []) = Inr c' \<and>
      visual_attribute c' ''visual__fill'' ''width'' = Some ''-12'')"
proof -
  have p: "0 < bar_max demo_bar" by (simp add: demo_bar_def)
  note r = rounding_exact_arith
  note T = progress_bar_fill_width [OF p r fresh_div, of demo_String]
  from T [of "[]" 50] obtain c1 where
    1: "render_ticks exact_arith demo_String (ProgressBar demo_bar) [50] (Element ''div'' [] []) = Inr c1"
    and 2: "visual_attribute c1 ''visual__fill'' ''width'' =
       Some (demo_String (fmul exact_arith
          (min (fdiv exact_arith (bar_getValue demo_bar 50) (bar_max demo_bar)) 1) 120))"
    and 3: "visual_attribute c1 ''visual__track'' ''width'' = Some (demo_String 120)"
    by auto
  from 2 have f2: "visual_attribute c1 ''visual__fill'' ''width'' = Some ''60''"
    by (simp add: demo_bar_def demo_String_def exact_arith_ops)
  from 3 have f3: "visual_attribute c1 ''visual__track'' ''width'' = Some ''120''"
    by (simp add: demo_String_def)
  from T [of "[50]" 150] obtain c2 where
    4: "render_ticks exact_arith demo_String (ProgressBar demo_bar) [50, 150] (Element ''div'' [] []) = Inr c2"
    and 5: "visual_attribute c2 ''visual__fill'' ''width'' =
       Some (demo_String (fmul exact_arith
          (min (fdiv exact_arith (bar_getValue demo_bar 150) (bar_max demo_bar)) 1) 120))"
    by auto
  from 5 have f5: "visual_attribute c2 ''visual__fill'' ''width'' = Some ''120''"
    by (simp add: demo_bar_def demo_String_def exact_arith_ops)
  from T [of "[]" "- 10"] obtain c3 where
    6: "render_ticks exact_arith demo_String (ProgressBar demo_bar) [- 10] (Element ''div'' [] []) = Inr c3"
    and 7: "visual_attribute c3 ''visual__fill'' ''width'' =
       Some (demo_String (fmul exact_arith
          (min (fdiv exact_arith (bar_getValue demo_bar (- 10)) (bar_max demo_bar)) 1) 120))"
    by auto
  from 7 have f7: "visual_attribute c3 ''visual__fill'' ''width'' = Some ''-12''"
    by (simp add: demo_bar_def demo_String_def exact_arith_ops)
  have a: "\<exists>c'. render_ticks exact_arith demo_String (ProgressBar demo_bar) [50] (Element ''div'' [] []) = Inr c' \<and>
      visual_attribute c' ''visual__fill'' ''width'' = Some ''60'' \<and>
      visual_attribute c' ''visual__track'' ''width'' = Some ''120''"
    by (intro exI [of _ c1] conjI) (rule 1 f2 f3)+
  have b: "\<exists>c'. render_ticks exact_arith demo_String (ProgressBar demo_bar) [50, 150] (Element ''div'' [] []) = Inr c' \<and>
      visual_attribute c' ''visual__fill'' ''width'' = Some ''120''"
    by (intro exI [of _ c2] conjI) (rule 4 f5)+
  have c: "\<exists>c'. render_ticks exact_arith demo_String (ProgressBar demo_bar) [- 10] (Element ''div'' [] []) = Inr c' \<and>
      visual_attribute c' ''visual__fill'' ''width'' = Some ''-12''"
    by (intro exI [of _ c3] conjI) (rule 6 f7)+
  show ?thesis
    by (intro conjI) (rule p r fresh_div a b c)+
qed






end
